theory Spec2Isabelle
  imports Main "HOL-Library.AList"
begin

section \<open>Expression splitting and arithmetic composition of encodings\<close>

text \<open>
  A shallow embedding of \<^verbatim>\<open>TransductionModel\<close> (file \<^verbatim>\<open>core/models/base_model.py\<close>):
  the methods \<^verbatim>\<open>forward_expression\<close>, \<^verbatim>\<open>forward_expression_eos\<close> and
  \<^verbatim>\<open>forward_batch_expr\<close> with its two local functions.

  Token tensors are integer lists: a 1-D tensor is an \<open>int list\<close>, a 2-D tensor of
  shape (time, batch) is the list of its rows. The tensors produced by the encoder hold
  floating-point numbers; their type \<open>'t\<close> is left abstract and every operation of the
  tensor library on them is a parameter (record \<open>torch\<close>) that may fail. The encoder,
  its \<^verbatim>\<open>forward_with_hidden\<close> method and the decoder are parameters too
  (record \<open>model\<close>). Every exception of the Python code is a value \<open>Inl e\<close>.
\<close>

subsection \<open>Errors\<close>

datatype error =
  IndexError | AttributeError | TypeError | RuntimeError
  | NotImplementedError | AssertionError

definition bind :: "error + 'a \<Rightarrow> ('a \<Rightarrow> error + 'b) \<Rightarrow> error + 'b" where
  "bind m f = (case m of Inl e \<Rightarrow> Inl e | Inr x \<Rightarrow> f x)"

text \<open>A list comprehension whose body may raise: the first exception ends it.\<close>

fun map_res :: "('a \<Rightarrow> error + 'b) \<Rightarrow> 'a list \<Rightarrow> error + 'b list" where
  "map_res f [] = Inr []"
| "map_res f (x # xs) =
     bind (f x) (\<lambda>y. bind (map_res f xs) (\<lambda>ys. Inr (y # ys)))"

text \<open>A \<^verbatim>\<open>for\<close> loop over a list that updates a state and may raise.\<close>

fun fold_res :: "('a \<Rightarrow> 's \<Rightarrow> error + 's) \<Rightarrow> 'a list \<Rightarrow> 's \<Rightarrow> error + 's" where
  "fold_res f [] s = Inr s"
| "fold_res f (x # xs) s = bind (f x s) (fold_res f xs)"

subsection \<open>Token tensors\<close>

type_synonym tensor1 = "int list"
type_synonym tensor2 = "int list list"

text \<open>\<^verbatim>\<open>t.permute(1, 0)\<close> on a 2-D tensor given by its rows.\<close>

definition permute10 :: "tensor2 \<Rightarrow> tensor2" where
  "permute10 m =
     (case m of [] \<Rightarrow> []
      | r # _ \<Rightarrow> map (\<lambda>j. map (\<lambda>row. row ! j) m) [0..<length r])"

text \<open>
  \<^verbatim>\<open>t.unsqueeze(0).permute(1, 0)\<close> and \<^verbatim>\<open>t.unsqueeze(1)\<close> on a 1-D tensor: both
  give the tensor of shape (len, 1).
\<close>

definition unsqueeze1 :: "tensor1 \<Rightarrow> tensor2" where
  "unsqueeze1 t = map (\<lambda>x. [x]) t"

text \<open>\<^verbatim>\<open>torch.stack\<close> of 1-D tensors: the list must not be empty and the sizes must agree.\<close>

definition stack :: "tensor1 list \<Rightarrow> error + tensor2" where
  "stack ts =
     (case ts of [] \<Rightarrow> Inl RuntimeError
      | t # _ \<Rightarrow>
          if list_all (\<lambda>u. length u = length t) ts then Inr ts else Inl RuntimeError)"

text \<open>The shape of a 2-D tensor with at least one row.\<close>

definition shape2 :: "tensor2 \<Rightarrow> nat list" where
  "shape2 m = [length m, length (hd m)]"

text \<open>Python slices \<^verbatim>\<open>t[0:offset]\<close> and \<^verbatim>\<open>t[offset:]\<close> for a negative offset.\<close>

definition slice_to :: "int \<Rightarrow> 'a list \<Rightarrow> 'a list" where
  "slice_to offset t = take (length t - nat (- offset)) t"

definition slice_from :: "int \<Rightarrow> 'a list \<Rightarrow> 'a list" where
  "slice_from offset t = drop (length t - nat (- offset)) t"

subsection \<open>Splitting a column at the operator markers\<close>

text \<open>
  \<^verbatim>\<open>_split_and_pad_expressions\<close> works on views of the caller's tensor: iterating over
  \<^verbatim>\<open>source.permute(1, 0)\<close> yields views of the columns and \<^verbatim>\<open>torch.tensor_split\<close>
  yields views of a column. \<^verbatim>\<open>torch.cat\<close> allocates a new tensor. The memory of one
  column is an \<open>int list\<close>; a sub-expression is a view (start, length) into it or a
  freshly allocated tensor.
\<close>

datatype sub_exp = View nat nat | Fresh "int list"

fun read_sub :: "int list \<Rightarrow> sub_exp \<Rightarrow> int list" where
  "read_sub mem (View s n) = take n (drop s mem)"
| "read_sub mem (Fresh xs) = xs"

text \<open>\<^verbatim>\<open>(exp == 0).nonzero(as_tuple=True)[0]\<close>\<close>

definition operator_indices :: "int list \<Rightarrow> nat list" where
  "operator_indices exp = filter (\<lambda>i. exp ! i = 0) [0..<length exp]"

text \<open>
  \<^verbatim>\<open>torch.tensor_split(exp, indices)\<close>: the views \<open>exp[s:i\<^sub>1]\<close>, \<open>exp[i\<^sub>1:i\<^sub>2]\<close>, \<dots>,
  \<open>exp[i\<^sub>k:]\<close>, where \<open>s\<close> is the start of the part not yet split and \<open>n\<close> the length
  of \<open>exp\<close>.
\<close>

fun tensor_split :: "nat \<Rightarrow> nat \<Rightarrow> nat list \<Rightarrow> sub_exp list" where
  "tensor_split s n [] = [View s (n - s)]"
| "tensor_split s n (i # is) = View s (i - s) # tensor_split i n is"

text \<open>
  \<^verbatim>\<open>sub_exps[0][0]\<close> and \<^verbatim>\<open>sub_exps[-1][-1]\<close> are zero-dimensional views: the address
  of the element, or IndexError when the sub-expression is empty.
\<close>

fun first_addr :: "sub_exp \<Rightarrow> error + nat" where
  "first_addr (View s n) = (if n = 0 then Inl IndexError else Inr s)"
| "first_addr (Fresh xs) = Inl IndexError"

fun last_addr :: "sub_exp \<Rightarrow> error + nat" where
  "last_addr (View s n) = (if n = 0 then Inl IndexError else Inr (s + n - 1))"
| "last_addr (Fresh xs) = Inl IndexError"

text \<open>\<^verbatim>\<open>sub_exps[i] = torch.cat((sub_exps[i], torch.tensor([eos_tok])))\<close>\<close>

definition append_eos :: "int list \<Rightarrow> nat \<Rightarrow> nat \<Rightarrow> sub_exp list \<Rightarrow> sub_exp list" where
  "append_eos mem eos_tok i sub_exps =
     sub_exps[i := Fresh (read_sub mem (sub_exps ! i) @ [mem ! eos_tok])]"

text \<open>
  \<^verbatim>\<open>sub_exps[i + 1][0] = sos_tok\<close>: a write through a view changes the column, a write
  to a fresh tensor changes only that tensor.
\<close>

definition set_sos ::
  "nat \<Rightarrow> nat \<Rightarrow> int list \<times> sub_exp list \<Rightarrow> error + int list \<times> sub_exp list" where
  "set_sos sos_tok i st =
     (case st of (mem, sub_exps) \<Rightarrow>
        (case sub_exps ! (i + 1) of
           View s n \<Rightarrow>
             if n = 0 then Inl IndexError
             else Inr (mem[s := mem ! sos_tok], sub_exps)
         | Fresh xs \<Rightarrow>
             if xs = [] then Inl IndexError
             else Inr (mem, sub_exps[i + 1 := Fresh (xs[0 := mem ! sos_tok])])))"

text \<open>
  The body of the loop over the columns: the sub-expressions of one column, and the
  column as the loop leaves it.
\<close>

definition split_column :: "int list \<Rightarrow> error + int list list \<times> int list" where
  "split_column exp =
     (let sub_exps = tensor_split 0 (length exp) (operator_indices exp) in
      bind (first_addr (sub_exps ! 0)) (\<lambda>sos_tok.
      bind (last_addr (last sub_exps)) (\<lambda>eos_tok.
        let sub_exps1 =
              fold (append_eos exp eos_tok) [0..<length sub_exps - 1] sub_exps
        in bind (fold_res (set_sos sos_tok) [0..<length sub_exps1 - 1] (exp, sub_exps1))
             (\<lambda>(mem, sub_exps2). Inr (map (read_sub mem) sub_exps2, mem)))))"

text \<open>
  \<^verbatim>\<open>_split_and_pad_expressions(source)\<close>: the expressions of all columns, and the
  caller's tensor afterwards.
\<close>

definition split_and_pad_expressions ::
  "tensor2 \<Rightarrow> error + int list list list \<times> tensor2" where
  "split_and_pad_expressions source =
     bind (map_res split_column (permute10 source)) (\<lambda>rs.
       Inr (map fst rs, permute10 (map snd rs)))"

subsection \<open>Encoder states\<close>

text \<open>
  A value held by a field of a \<^verbatim>\<open>ModelIO\<close> that the encoder returns: \<^verbatim>\<open>None\<close>, one
  tensor, or a tuple of tensors (the hidden and cell state of a recurrent unit).
\<close>

datatype 't pyval = PNone | PTensor 't | PTuple "'t list"

text \<open>
  Modelled from the spec: the class \<^verbatim>\<open>ModelIO\<close> (module \<^verbatim>\<open>core.models.model_io\<close>) is
  not part of the sources at hand. The spec describes it as a bag of named optional
  fields, set individually or in bulk, where an absent field differs from a present one.
  It is an association list with distinct keys, in the order of insertion, as the
  \<^verbatim>\<open>__dict__\<close> of a Python object is; \<^verbatim>\<open>set_attribute\<close> is \<open>AList.update\<close>.
\<close>

type_synonym 't modelio = "(string \<times> 't pyval) list"

definition getattr :: "'t modelio \<Rightarrow> string \<Rightarrow> error + 't pyval" where
  "getattr r key = (case map_of r key of None \<Rightarrow> Inl AttributeError | Some v \<Rightarrow> Inr v)"

definition keys :: "'t modelio \<Rightarrow> string list" where
  "keys r = map fst r"

text \<open>\<^verbatim>\<open>xs[i]\<close> on a Python list, for an index that is not negative.\<close>

definition nth_res :: "'a list \<Rightarrow> nat \<Rightarrow> error + 'a" where
  "nth_res xs i = (if i < length xs then Inr (xs ! i) else Inl IndexError)"

text \<open>
  The operations of the tensor library on encoder tensors. \<open>None\<close> stands for the
  exception the library raises (shapes that do not fit together, for instance).
  \<open>t_unbind\<close> lists the sub-tensors along the first dimension, which indexing and
  iteration go through; a zero-dimensional tensor has none.
\<close>

record 't torch =
  t_add :: "'t \<Rightarrow> 't \<Rightarrow> 't option"
  t_sub :: "'t \<Rightarrow> 't \<Rightarrow> 't option"
  t_cat :: "'t \<Rightarrow> 't \<Rightarrow> 't option"
  t_hstack :: "'t list \<Rightarrow> 't option"
  t_shape :: "'t \<Rightarrow> nat list"
  t_unbind :: "'t \<Rightarrow> 't list option"

datatype oper = Add | Subtract

definition tensor_op :: "'t torch \<Rightarrow> oper \<Rightarrow> 't \<Rightarrow> 't \<Rightarrow> error + 't" where
  "tensor_op T f x y =
     (case (case f of Add \<Rightarrow> t_add T | Subtract \<Rightarrow> t_sub T) x y of
        None \<Rightarrow> Inl RuntimeError
      | Some z \<Rightarrow> Inr z)"

text \<open>
  \<^verbatim>\<open>torch.add(a, b)\<close>, \<^verbatim>\<open>torch.subtract(a, b)\<close>, \<^verbatim>\<open>a + b\<close> and \<^verbatim>\<open>a - b\<close> with a tensor
  on the left: both operands must be tensors.
\<close>

definition apply_op :: "'t torch \<Rightarrow> oper \<Rightarrow> 't pyval \<Rightarrow> 't pyval \<Rightarrow> error + 't pyval" where
  "apply_op T f a b =
     (case a of
        PTensor x \<Rightarrow>
          (case b of
             PTensor y \<Rightarrow> bind (tensor_op T f x y) (\<lambda>z. Inr (PTensor z))
           | _ \<Rightarrow> Inl TypeError)
      | _ \<Rightarrow> Inl TypeError)"

text \<open>\<^verbatim>\<open>v[i]\<close> on a field value.\<close>

definition subscript :: "'t torch \<Rightarrow> 't pyval \<Rightarrow> nat \<Rightarrow> error + 't" where
  "subscript T v i =
     (case v of
        PNone \<Rightarrow> Inl TypeError
      | PTuple xs \<Rightarrow> nth_res xs i
      | PTensor t \<Rightarrow>
          (case t_unbind T t of None \<Rightarrow> Inl IndexError | Some xs \<Rightarrow> nth_res xs i))"

text \<open>Iterating over a field value, as \<^verbatim>\<open>zip(*...)\<close> does.\<close>

definition iterate :: "'t torch \<Rightarrow> 't pyval \<Rightarrow> error + 't list" where
  "iterate T v =
     (case v of
        PNone \<Rightarrow> Inl TypeError
      | PTuple xs \<Rightarrow> Inr xs
      | PTensor t \<Rightarrow> (case t_unbind T t of None \<Rightarrow> Inl TypeError | Some xs \<Rightarrow> Inr xs))"

text \<open>\<^verbatim>\<open>torch.cat((a, b))\<close> and \<^verbatim>\<open>torch.hstack(vs)\<close> on field values.\<close>

definition cat :: "'t torch \<Rightarrow> 't pyval \<Rightarrow> 't pyval \<Rightarrow> error + 't" where
  "cat T a b =
     (case a of
        PTensor x \<Rightarrow>
          (case b of
             PTensor y \<Rightarrow> (case t_cat T x y of None \<Rightarrow> Inl RuntimeError | Some z \<Rightarrow> Inr z)
           | _ \<Rightarrow> Inl TypeError)
      | _ \<Rightarrow> Inl TypeError)"

definition hstack :: "'t torch \<Rightarrow> 't list \<Rightarrow> error + 't" where
  "hstack T ts = (case t_hstack T ts of None \<Rightarrow> Inl RuntimeError | Some z \<Rightarrow> Inr z)"

definition as_tensor :: "'t pyval \<Rightarrow> error + 't" where
  "as_tensor v = (case v of PTensor t \<Rightarrow> Inr t | _ \<Rightarrow> Inl TypeError)"

subsection \<open>The encoder and the decoder\<close>

text \<open>
  The input of the decoder: a \<^verbatim>\<open>ModelIO\<close> with the token fields \<^verbatim>\<open>source\<close> and
  \<^verbatim>\<open>transform\<close>, and the encoder fields set on it afterwards.
\<close>

record 't decoder_input =
  dec_source :: tensor2
  dec_transform :: tensor2
  dec_attrs :: "'t modelio"

text \<open>
  \<open>encoder src\<close> is \<^verbatim>\<open>self._encoder(ModelIO({"source": src}))\<close>,
  \<open>forward_with_hidden src h\<close> is \<^verbatim>\<open>self._encoder.forward_with_hidden\<close> on the same
  input with \<^verbatim>\<open>hidden=h\<close>, and \<open>decoder d\<close> is
  \<^verbatim>\<open>self._decoder(d, tf_ratio=0.0).dec_outputs\<close>.
\<close>

record ('t, 'o) model =
  encoder :: "tensor2 \<Rightarrow> error + 't modelio"
  forward_with_hidden :: "tensor2 \<Rightarrow> 't pyval \<Rightarrow> error + 't modelio"
  decoder :: "'t decoder_input \<Rightarrow> error + 'o"

text \<open>A batch, and a term of an expression: an object with a source and an annotation.\<close>

record batch =
  source :: tensor2
  annotation :: tensor2

subsection \<open>Reduction of the sub-expressions of a batch\<close>

text \<open>\<^verbatim>\<open>getattr(encodings[i], key)\<close> and \<^verbatim>\<open>getattr(encodings[i], key)[j]\<close>\<close>

definition term_field :: "'t modelio list \<Rightarrow> nat \<Rightarrow> string \<Rightarrow> error + 't pyval" where
  "term_field encodings i key = bind (nth_res encodings i) (\<lambda>e. getattr e key)"

definition term_part :: "'t torch \<Rightarrow> 't modelio list \<Rightarrow> nat \<Rightarrow> string \<Rightarrow> nat \<Rightarrow> error + 't" where
  "term_part T encodings i key j = bind (term_field encodings i key) (\<lambda>v. subscript T v j)"

text \<open>
  \<^verbatim>\<open>x - y + z\<close>: Python evaluates \<open>x\<close>, \<open>y\<close>, the difference, \<open>z\<close>, the sum, and the
  first exception ends the evaluation.
\<close>

definition minus_plus ::
  "(oper \<Rightarrow> 'v \<Rightarrow> 'v \<Rightarrow> error + 'v) \<Rightarrow> error + 'v \<Rightarrow> error + 'v \<Rightarrow> error + 'v \<Rightarrow> error + 'v" where
  "minus_plus ap x y z =
     bind x (\<lambda>a. bind y (\<lambda>b. bind (ap Subtract a b) (\<lambda>d. bind z (\<lambda>c. ap Add d c))))"

text \<open>The body of the loop over the keys of \<^verbatim>\<open>encodings[0]\<close>: the value of \<^verbatim>\<open>results[key]\<close>.\<close>

definition reduce_key :: "'t torch \<Rightarrow> 't modelio list \<Rightarrow> string \<Rightarrow> error + 't pyval" where
  "reduce_key T encodings key =
     bind (term_field encodings 0 key) (\<lambda>v0.
       case v0 of
         PTuple _ \<Rightarrow>
           bind (minus_plus (tensor_op T)
                   (term_part T encodings 0 key 0)
                   (term_part T encodings 1 key 0)
                   (term_part T encodings 2 key 0)) (\<lambda>a.
           bind (minus_plus (tensor_op T)
                   (term_part T encodings 0 key 1)
                   (term_part T encodings 1 key 0)
                   (term_part T encodings 2 key 1)) (\<lambda>b.
             Inr (PTuple [a, b])))
       | _ \<Rightarrow>
           minus_plus (apply_op T)
             (term_field encodings 0 key)
             (term_field encodings 1 key)
             (term_field encodings 2 key))"

definition reduce_encodings :: "'t torch \<Rightarrow> 't modelio list \<Rightarrow> error + 't modelio" where
  "reduce_encodings T encodings =
     bind (nth_res encodings 0) (\<lambda>e0.
       fold_res (\<lambda>key results.
           bind (reduce_key T encodings key) (\<lambda>v. Inr (AList.update key v results)))
         (keys e0) [])"

text \<open>The body of the loop over the expressions, and \<^verbatim>\<open>_encode_reduce_expressions\<close>.\<close>

definition encode_reduce_expression ::
  "('t, 'o) model \<Rightarrow> 't torch \<Rightarrow> tensor2 list \<Rightarrow> error + 't modelio" where
  "encode_reduce_expression M T exp =
     bind (map_res (encoder M) exp) (reduce_encodings T)"

definition encode_reduce_expressions ::
  "('t, 'o) model \<Rightarrow> 't torch \<Rightarrow> tensor2 list list \<Rightarrow> error + 't modelio list" where
  "encode_reduce_expressions M T expressions =
     map_res (encode_reduce_expression M T) expressions"

subsection \<open>Reduction of an expression given term by term\<close>

text \<open>
  The argument of \<^verbatim>\<open>forward_expression\<close> is a list whose items are strings (the
  operators) or terms; the list of representations holds the strings and the encodings
  of the terms.
\<close>

datatype expr_item = Str string | Term batch

datatype 't rep = RStr string | REnc "'t modelio"

text \<open>
  The first loop. \<open>crop\<close> is what the encoder sees of the source of a term: all of it in
  \<^verbatim>\<open>forward_expression\<close>, \<^verbatim>\<open>term.source[0:-1, :]\<close> in \<^verbatim>\<open>forward_expression_eos\<close>.
\<close>

definition encode_item ::
  "('t, 'o) model \<Rightarrow> (tensor2 \<Rightarrow> tensor2) \<Rightarrow> expr_item \<Rightarrow> error + 't rep" where
  "encode_item M crop item =
     (case item of
        Str s \<Rightarrow> Inr (RStr s)
      | Term term \<Rightarrow> bind (encoder M (crop (source term))) (\<lambda>enc_output. Inr (REnc enc_output)))"

definition sources_of :: "expr_item list \<Rightarrow> tensor2 list" where
  "sources_of expressions =
     concat (map (\<lambda>item. case item of Str s \<Rightarrow> [] | Term term \<Rightarrow> [source term]) expressions)"

text \<open>The variable \<^verbatim>\<open>should_operate\<close>: \<^verbatim>\<open>False\<close>, \<^verbatim>\<open>torch.add\<close> or \<^verbatim>\<open>torch.subtract\<close>.\<close>

datatype should_operate = NoOp | Op oper

record 't buffer =
  enc_hidden :: "'t pyval"
  enc_outputs :: "'t pyval"

text \<open>
  \<^verbatim>\<open>try: buffer[key] = getattr(r, key)\<close> and
  \<^verbatim>\<open>try: buffer[key] = should_operate(buffer[key], getattr(r, key))\<close>, each with
  \<^verbatim>\<open>except: buffer[key] = None\<close>.
\<close>

definition or_none :: "error + 't pyval \<Rightarrow> 't pyval" where
  "or_none m = (case m of Inl e \<Rightarrow> PNone | Inr v \<Rightarrow> v)"

definition first_value :: "'t modelio \<Rightarrow> string \<Rightarrow> 't pyval" where
  "first_value r key = or_none (getattr r key)"

definition operate :: "'t torch \<Rightarrow> oper \<Rightarrow> 't pyval \<Rightarrow> 't modelio \<Rightarrow> string \<Rightarrow> 't pyval" where
  "operate T f old r key = or_none (bind (getattr r key) (apply_op T f old))"

fun reduce_step ::
  "'t torch \<Rightarrow> 't rep \<Rightarrow> should_operate \<times> 't buffer \<Rightarrow> should_operate \<times> 't buffer" where
  "reduce_step T (RStr s) (so, buf) = (Op (if s = ''+'' then Add else Subtract), buf)"
| "reduce_step T (REnc r) (NoOp, buf) =
     (NoOp, \<lparr>enc_hidden = first_value r ''enc_hidden'',
             enc_outputs = first_value r ''enc_outputs''\<rparr>)"
| "reduce_step T (REnc r) (Op f, buf) =
     (NoOp, \<lparr>enc_hidden = operate T f (enc_hidden buf) r ''enc_hidden'',
             enc_outputs = operate T f (enc_outputs buf) r ''enc_outputs''\<rparr>)"

definition reduce_representations :: "'t torch \<Rightarrow> 't rep list \<Rightarrow> 't buffer" where
  "reduce_representations T representations =
     snd (fold (reduce_step T) representations
            (NoOp, \<lparr>enc_hidden = PNone, enc_outputs = PNone\<rparr>))"

text \<open>\<^verbatim>\<open>if buffer[key] is not None: dec_inputs.set_attribute(key, buffer[key])\<close>\<close>

definition set_present :: "string \<Rightarrow> 't pyval \<Rightarrow> 't modelio \<Rightarrow> 't modelio" where
  "set_present key v attrs = (case v of PNone \<Rightarrow> attrs | _ \<Rightarrow> AList.update key v attrs)"

definition decoder_inputs ::
  "expr_item list \<Rightarrow> 't buffer \<Rightarrow> error + 't decoder_input" where
  "decoder_inputs expressions buf =
     bind (nth_res (sources_of expressions) 0) (\<lambda>src.
     bind (nth_res expressions 0) (\<lambda>e0.
       case e0 of
         Str s \<Rightarrow> Inl AttributeError
       | Term term \<Rightarrow>
           Inr \<lparr>dec_source = src, dec_transform = annotation term,
                dec_attrs = set_present ''enc_outputs'' (enc_outputs buf)
                              (set_present ''enc_hidden'' (enc_hidden buf) [])\<rparr>))"

definition forward_expression ::
  "('t, 'o) model \<Rightarrow> 't torch \<Rightarrow> expr_item list \<Rightarrow> error + 'o" where
  "forward_expression M T expressions =
     bind (map_res (encode_item M (\<lambda>src. src)) expressions) (\<lambda>representations.
     bind (decoder_inputs expressions (reduce_representations T representations))
       (decoder M))"

subsection \<open>Reduction before the end marker\<close>

text \<open>The two assertions on the shapes.\<close>

definition assert_outputs :: "'t torch \<Rightarrow> 't \<Rightarrow> tensor2 \<Rightarrow> error + unit" where
  "assert_outputs T outputs src =
     (if take 2 (t_shape T outputs) = shape2 src then Inr () else Inl AssertionError)"

definition assert_hidden :: "'t torch \<Rightarrow> 't pyval \<Rightarrow> error + unit" where
  "assert_hidden T hidden =
     (case hidden of
        PTensor h \<Rightarrow>
          (case t_shape T h of
             [] \<Rightarrow> Inl IndexError
           | n # _ \<Rightarrow> if n = 1 then Inr () else Inl AssertionError)
      | _ \<Rightarrow> Inl AttributeError)"

text \<open>\<^verbatim>\<open>expressions[0].source[-1, :].unsqueeze(1)\<close>\<close>

definition eos_token_of :: "expr_item list \<Rightarrow> error + tensor2" where
  "eos_token_of expressions =
     bind (nth_res expressions 0) (\<lambda>e0.
       case e0 of
         Str s \<Rightarrow> Inl AttributeError
       | Term term \<Rightarrow>
           if source term = [] then Inl IndexError
           else Inr (unsqueeze1 (last (source term))))"

text \<open>
  The method up to the assertions: the concatenated outputs, the hidden state that the
  encoder returns for the end marker, and the source of the first term.
\<close>

definition eos_composition ::
  "('t, 'o) model \<Rightarrow> 't torch \<Rightarrow> expr_item list \<Rightarrow> error + 't \<times> 't pyval \<times> tensor2" where
  "eos_composition M T expressions =
     bind (map_res (encode_item M (\<lambda>src. take (length src - 1) src)) expressions)
       (\<lambda>representations.
     let buf = reduce_representations T representations in
     bind (eos_token_of expressions) (\<lambda>eos_token.
     bind (forward_with_hidden M eos_token (enc_hidden buf)) (\<lambda>test_out.
     bind (getattr test_out ''enc_outputs'') (\<lambda>eos_outputs.
     bind (cat T (enc_outputs buf) eos_outputs) (\<lambda>new_outputs.
     bind (getattr test_out ''enc_hidden'') (\<lambda>new_hidden.
     bind (nth_res (sources_of expressions) 0) (\<lambda>src0.
       Inr (new_outputs, new_hidden, src0))))))))"

text \<open>
  The assertions and the \<^verbatim>\<open>ModelIO\<close> that the decoder receives.
\<close>

definition eos_decoder_inputs ::
  "('t, 'o) model \<Rightarrow> 't torch \<Rightarrow> expr_item list \<Rightarrow> error + 't decoder_input" where
  "eos_decoder_inputs M T expressions =
     bind (eos_composition M T expressions) (\<lambda>(new_outputs, new_hidden, src0).
     bind (assert_outputs T new_outputs src0) (\<lambda>_.
     bind (assert_hidden T new_hidden) (\<lambda>_.
       decoder_inputs expressions
         \<lparr>enc_hidden = new_hidden, enc_outputs = PTensor new_outputs\<rparr>)))"

definition forward_expression_eos ::
  "('t, 'o) model \<Rightarrow> 't torch \<Rightarrow> expr_item list \<Rightarrow> error + 'o" where
  "forward_expression_eos M T expressions =
     bind (eos_decoder_inputs M T expressions) (decoder M)"

subsection \<open>Composition over a batch\<close>

text \<open>\<^verbatim>\<open>zip(*lists)\<close>: as many tuples as the shortest list has elements.\<close>

definition zip_star :: "'a list list \<Rightarrow> 'a list list" where
  "zip_star ls =
     (case ls of [] \<Rightarrow> []
      | l # _ \<Rightarrow> map (\<lambda>j. map (\<lambda>x. x ! j) ls) [0..<fold min (map length ls) (length l)])"

text \<open>
  The value that the loop over the keys of \<^verbatim>\<open>reduced_encodings[0]\<close> sets on the
  input of the decoder.
\<close>

definition collapse_key :: "'t torch \<Rightarrow> 't modelio list \<Rightarrow> string \<Rightarrow> error + 't pyval" where
  "collapse_key T reduced_encodings key =
     bind (term_field reduced_encodings 0 key) (\<lambda>v0.
     bind (map_res (\<lambda>r. getattr r key) reduced_encodings) (\<lambda>vs.
       case v0 of
         PTuple _ \<Rightarrow>
           bind (map_res (iterate T) vs) (\<lambda>parts.
           bind (map_res (hstack T) (zip_star parts)) (\<lambda>hs. Inr (PTuple hs)))
       | _ \<Rightarrow>
           bind (map_res as_tensor vs) (\<lambda>ts.
           bind (hstack T ts) (\<lambda>h. Inr (PTensor h)))))"

definition collapse ::
  "'t torch \<Rightarrow> 't modelio list \<Rightarrow> 't decoder_input \<Rightarrow> error + 't decoder_input" where
  "collapse T reduced_encodings dec_input =
     bind (nth_res reduced_encodings 0) (\<lambda>r0.
       fold_res (\<lambda>key d.
           bind (collapse_key T reduced_encodings key) (\<lambda>v.
             Inr (d\<lparr>dec_attrs := AList.update key v (dec_attrs d)\<rparr>)))
         (keys r0) dec_input)"

text \<open>
  The branch \<^verbatim>\<open>offset < 0\<close> up to the list \<^verbatim>\<open>reduced_encodings\<close>: for every expression,
  the buffer with the hidden state and the outputs.
\<close>

definition resume_buffer ::
  "'t torch \<Rightarrow> 't modelio \<Rightarrow> 't modelio \<Rightarrow> error + 't modelio" where
  "resume_buffer T partial_encoding full_encoding =
     bind (getattr full_encoding ''enc_hidden'') (\<lambda>h.
     bind (getattr partial_encoding ''enc_outputs'') (\<lambda>po.
     bind (getattr full_encoding ''enc_outputs'') (\<lambda>fo.
     bind (cat T po fo) (\<lambda>c.
       Inr [(''enc_hidden'', h), (''enc_outputs'', PTensor c)]))))"

definition reduce_during_encoding ::
  "('t, 'o) model \<Rightarrow> 't torch \<Rightarrow> int \<Rightarrow> int list list list \<Rightarrow> error + 't modelio list" where
  "reduce_during_encoding M T offset expressions =
     (let exps_to_comp = map (map (slice_to offset)) expressions;
          expressions_to_reduce = map (map unsqueeze1) exps_to_comp in
      bind (encode_reduce_expressions M T expressions_to_reduce) (\<lambda>partial_encodings.
      bind (map_res (\<lambda>exp. bind (nth_res exp 0) (\<lambda>t. Inr (slice_from offset t))) expressions)
        (\<lambda>remaining_partial_terms.
      let remaining_partial_inputs = map unsqueeze1 remaining_partial_terms in
      bind (map_res (\<lambda>(ins, enc).
                bind (getattr enc ''enc_hidden'') (forward_with_hidden M ins))
              (zip remaining_partial_inputs partial_encodings)) (\<lambda>full_encodings.
      map_res (\<lambda>i. resume_buffer T (partial_encodings ! i) (full_encodings ! i))
        [0..<length partial_encodings]))))"

definition forward_batch_expr ::
  "('t, 'o) model \<Rightarrow> 't torch \<Rightarrow> batch \<Rightarrow> int \<Rightarrow> error + 'o" where
  "forward_batch_expr M T b offset =
     bind (split_and_pad_expressions (source b)) (\<lambda>(expressions, source').
     bind (map_res (\<lambda>e. nth_res e 0) expressions) (\<lambda>firsts.
     bind (stack firsts) (\<lambda>stacked.
     let dec_input = \<lparr>dec_source = permute10 stacked, dec_transform = annotation b,
                      dec_attrs = []\<rparr> in
     if offset < 0 then
       bind (reduce_during_encoding M T offset expressions) (\<lambda>reduced_encodings.
       bind (collapse T reduced_encodings dec_input) (decoder M))
     else
       bind (encode_reduce_expressions M T (map (map unsqueeze1) expressions))
         (\<lambda>reduced_encodings.
       if offset = 0 then
         bind (collapse T reduced_encodings dec_input) (decoder M)
       else Inl NotImplementedError))))"

subsection \<open>The result of the split in closed form\<close>

text \<open>
  What a fresh tensor becomes when its first element is overwritten; a view is listed
  only to make the function total.
\<close>

fun fresh_upd :: "int \<Rightarrow> sub_exp \<Rightarrow> sub_exp" where
  "fresh_upd v (Fresh xs) = Fresh (xs[0 := v])"
| "fresh_upd v (View s n) = View s n"

text \<open>
  \<open>piece exp i\<close> is the \<open>i\<close>-th part that \<^verbatim>\<open>torch.tensor_split\<close> cuts out of the
  column, \<open>padded exp i\<close> the same part with its first token replaced by the first token
  of the column and, for every part but the last, the last token of the column appended,
  and \<open>written exp\<close> the column with the position of its last operator marker
  overwritten by its first token.
\<close>

definition piece :: "int list \<Rightarrow> nat \<Rightarrow> int list" where
  "piece exp i = read_sub exp (tensor_split 0 (length exp) (operator_indices exp) ! i)"

definition padded :: "int list \<Rightarrow> nat \<Rightarrow> int list" where
  "padded exp i =
     (piece exp i)[0 := hd exp] @
     (if i < length (operator_indices exp) then [last exp] else [])"

definition written :: "int list \<Rightarrow> int list" where
  "written exp =
     (case operator_indices exp of [] \<Rightarrow> exp
      | _ \<Rightarrow> exp[last (operator_indices exp) := hd exp])"



text \<open>
  The effect on the caller's tensor as claimed: every position of \<open>src\<close> that holds an
  operator marker holds, in \<open>src'\<close>, the first token of its column.
\<close>

definition all_markers_rewritten :: "tensor2 \<Rightarrow> tensor2 \<Rightarrow> bool" where
  "all_markers_rewritten src src' \<longleftrightarrow>
     (\<forall>i < length src. \<forall>j < length (src ! i).
        src ! i ! j = 0 \<longrightarrow> src' ! i ! j = hd src ! j)"

subsection \<open>The reduction as the description words it\<close>


text \<open>
  The representations, and the argument of \<^verbatim>\<open>forward_expression\<close>, for a first term
  and a list of operators, each with the term that follows it.
\<close>

definition interleave :: "'t modelio \<Rightarrow> (string \<times> 't modelio) list \<Rightarrow> 't rep list" where
  "interleave e0 rest = REnc e0 # concat (map (\<lambda>(s, e). [RStr s, REnc e]) rest)"

definition expression :: "batch \<Rightarrow> (string \<times> batch) list \<Rightarrow> expr_item list" where
  "expression t0 rest = Term t0 # concat (map (\<lambda>(s, t). [Str s, Term t]) rest)"

text \<open>\<^verbatim>\<open>buffer[key]\<close> for the two keys of the buffer.\<close>

definition buffer_get :: "'t buffer \<Rightarrow> string \<Rightarrow> 't pyval" where
  "buffer_get buf key = (if key = ''enc_hidden'' then enc_hidden buf else enc_outputs buf)"

subsection \<open>A tensor library and an encoder for the examples\<close>

text \<open>
  Tensors with integer entries, given by their shape and their entries in row-major
  order. Addition and subtraction want operands of one shape; \<open>ft_cat\<close> joins along
  the first dimension, \<open>ft_hstack\<close> along the second (the first for 1-D tensors).
\<close>

type_synonym ftensor = "nat list \<times> int list"

definition ft_add :: "ftensor \<Rightarrow> ftensor \<Rightarrow> ftensor option" where
  "ft_add x y =
     (if fst x = fst y then Some (fst x, map (\<lambda>(a, b). a + b) (zip (snd x) (snd y))) else None)"

definition ft_sub :: "ftensor \<Rightarrow> ftensor \<Rightarrow> ftensor option" where
  "ft_sub x y =
     (if fst x = fst y then Some (fst x, map (\<lambda>(a, b). a - b) (zip (snd x) (snd y))) else None)"

definition ft_cat :: "ftensor \<Rightarrow> ftensor \<Rightarrow> ftensor option" where
  "ft_cat x y =
     (case fst x of
        [] \<Rightarrow> None
      | a # s \<Rightarrow>
          (case fst y of
             [] \<Rightarrow> None
           | b # s' \<Rightarrow> if s = s' then Some ((a + b) # s, snd x @ snd y) else None))"

definition ft_chunk :: "ftensor \<Rightarrow> nat \<Rightarrow> int list" where
  "ft_chunk x i =
     (let w = prod_list (tl (fst x)) in take w (drop (i * w) (snd x)))"

definition ft_unbind :: "ftensor \<Rightarrow> ftensor list option" where
  "ft_unbind x =
     (case fst x of
        [] \<Rightarrow> None
      | a # s \<Rightarrow> Some (map (\<lambda>i. (s, ft_chunk x i)) [0..<a]))"

definition ft_hstack :: "ftensor list \<Rightarrow> ftensor option" where
  "ft_hstack ts =
     (case ts of
        [] \<Rightarrow> None
      | t # _ \<Rightarrow>
          (case fst t of
             [] \<Rightarrow> None
           | [n] \<Rightarrow>
               if list_all (\<lambda>u. length (fst u) = 1) ts
               then Some ([sum_list (map (\<lambda>u. hd (fst u)) ts)], concat (map snd ts))
               else None
           | a # b # s \<Rightarrow>
               if list_all (\<lambda>u. take 1 (fst u) = [a] \<and> drop 2 (fst u) = s \<and>
                                  2 \<le> length (fst u)) ts
               then Some (a # sum_list (map (\<lambda>u. fst u ! 1) ts) # s,
                          concat (map (\<lambda>i. concat (map (\<lambda>u. ft_chunk u i) ts)) [0..<a]))
               else None))"

definition ftorch :: "ftensor torch" where
  "ftorch = \<lparr>t_add = ft_add, t_sub = ft_sub, t_cat = ft_cat, t_hstack = ft_hstack,
             t_shape = fst, t_unbind = ft_unbind\<rparr>"

text \<open>
  An encoder with one layer and a state of width one: the outputs are the tokens, the
  hidden state is the sum of the tokens of each column. Resuming adds to the hidden
  state given; without one it starts from zero. The decoder returns its input.
\<close>

definition width :: "tensor2 \<Rightarrow> nat" where
  "width src = (case src of [] \<Rightarrow> 0 | r # _ \<Rightarrow> length r)"

definition toy_outputs :: "tensor2 \<Rightarrow> ftensor" where
  "toy_outputs src = ([length src, width src, 1], concat src)"

definition toy_hidden :: "tensor2 \<Rightarrow> ftensor" where
  "toy_hidden src = ([1, width src, 1], map sum_list (permute10 src))"

definition toy_encoder :: "tensor2 \<Rightarrow> error + ftensor modelio" where
  "toy_encoder src =
     Inr [(''enc_hidden'', PTensor (toy_hidden src)), (''enc_outputs'', PTensor (toy_outputs src))]"

definition toy_forward_with_hidden :: "tensor2 \<Rightarrow> ftensor pyval \<Rightarrow> error + ftensor modelio" where
  "toy_forward_with_hidden src hidden =
     (case hidden of
        PNone \<Rightarrow> toy_encoder src
      | PTuple hs \<Rightarrow> Inl TypeError
      | PTensor h \<Rightarrow>
          (case ft_add h (toy_hidden src) of
             None \<Rightarrow> Inl RuntimeError
           | Some h' \<Rightarrow>
               Inr [(''enc_hidden'', PTensor h'), (''enc_outputs'', PTensor (toy_outputs src))]))"

definition toy_model :: "(ftensor, ftensor decoder_input) model" where
  "toy_model = \<lparr>encoder = toy_encoder, forward_with_hidden = toy_forward_with_hidden,
                decoder = Inr\<rparr>"


text \<open>
  An encoder that reports no per-step outputs for a source of a single token, only a
  hidden state.
\<close>

definition terse_model :: "(ftensor, ftensor decoder_input) model" where
  "terse_model =
     \<lparr>encoder = (\<lambda>src.
        if length src = 1 then Inr [(''enc_hidden'', PTensor (toy_hidden src))]
        else toy_encoder src),
      forward_with_hidden = toy_forward_with_hidden,
      decoder = Inr\<rparr>"

section \<open>Properties\<close>

subsection \<open>Results that may be errors\<close>


lemma bind_Inr [simp]: "bind (Inr x) f = f x"
  by (simp add: bind_def)

lemma bind_Inl [simp]: "bind (Inl e) f = Inl e"
  by (simp add: bind_def)


lemma bind_cases: "bind m f = (case m of Inl e \<Rightarrow> Inl e | Inr x \<Rightarrow> f x)"
  by (simp add: bind_def)

lemma bind_return [simp]: "bind m Inr = m"
  by (cases m) simp_all

lemma fold_res_Nil_fun [simp]: "fold_res f [] = Inr"
  by (rule ext) simp

lemma fold_res_single [simp]: "fold_res f [x] = f x"
  by (rule ext) simp

lemma fold_res_append: "fold_res f (xs @ ys) s = bind (fold_res f xs s) (fold_res f ys)"
  by (induction xs arbitrary: s) (simp_all add: bind_def split: sum.splits)

lemma tensor_split_length [simp]: "length (tensor_split s n is) = Suc (length is)"
  by (induction "is" arbitrary: s) simp_all

lemma tensor_split_nth:
  "i \<le> length is \<Longrightarrow>
   tensor_split s n is ! i = View ((s # is) ! i) ((is @ [n]) ! i - (s # is) ! i)"
proof (induction "is" arbitrary: s i)
  case Nil
  then show ?case by simp
next
  case (Cons a "is")
  then show ?case by (cases i) simp_all
qed

lemma fold_append_eos:
  "k \<le> length subs \<Longrightarrow>
   fold (append_eos mem e) [0..<k] subs =
     map (\<lambda>v. Fresh (read_sub mem v @ [mem ! e])) (take k subs) @ drop k subs"
proof (induction k)
  case 0
  then show ?case by simp
next
  case (Suc k)
  then have k: "k < length subs" by simp
  have "fold (append_eos mem e) [0..<Suc k] subs =
        append_eos mem e k (fold (append_eos mem e) [0..<k] subs)"
    by simp
  also have "\<dots> = append_eos mem e k
        (map (\<lambda>v. Fresh (read_sub mem v @ [mem ! e])) (take k subs) @ drop k subs)"
    using Suc by simp
  also have "\<dots> = map (\<lambda>v. Fresh (read_sub mem v @ [mem ! e])) (take (Suc k) subs) @ drop (Suc k) subs"
    using k
    by (simp add: append_eos_def nth_append list_update_append take_Suc_conv_app_nth
        Cons_nth_drop_Suc [symmetric])
  finally show ?case .
qed

lemma fold_res_set_sos_fresh:
  "k < length subs \<Longrightarrow>
   (\<forall>j. 1 \<le> j \<and> j \<le> k \<longrightarrow> (\<exists>xs. subs ! j = Fresh xs \<and> xs \<noteq> [])) \<Longrightarrow>
   fold_res (set_sos a) [0..<k] (mem, subs) =
     Inr (mem, map (\<lambda>j. if 1 \<le> j \<and> j \<le> k then fresh_upd (mem ! a) (subs ! j) else subs ! j)
                 [0..<length subs])"
proof (induction k)
  case 0
  then show ?case by (auto intro!: nth_equalityI)
next
  case (Suc k)
  let ?g = "\<lambda>k j. if 1 \<le> j \<and> j \<le> k then fresh_upd (mem ! a) (subs ! j) else subs ! j"
  from Suc.prems obtain xs where xs: "subs ! Suc k = Fresh xs" "xs \<noteq> []"
    by (metis le_add1 le_refl plus_1_eq_Suc)
  have IH: "fold_res (set_sos a) [0..<k] (mem, subs) = Inr (mem, map (?g k) [0..<length subs])"
    using Suc by simp
  have "fold_res (set_sos a) [0..<Suc k] (mem, subs) =
        set_sos a k (mem, map (?g k) [0..<length subs])"
    by (simp add: fold_res_append IH)
  also have "\<dots> = Inr (mem, (map (?g k) [0..<length subs])[Suc k := Fresh (xs[0 := mem ! a])])"
    using Suc.prems(1) xs by (simp add: set_sos_def)
  also have "(map (?g k) [0..<length subs])[Suc k := Fresh (xs[0 := mem ! a])] =
             map (?g (Suc k)) [0..<length subs]"
    using Suc.prems(1) xs by (intro nth_equalityI) (auto simp: nth_list_update)
  finally show ?case .
qed


lemma operator_indices_lt: "i \<in> set (operator_indices exp) \<Longrightarrow> i < length exp \<and> exp ! i = 0"
  by (simp add: operator_indices_def)

lemma operator_indices_sorted: "sorted_wrt (<) (operator_indices exp)"
  by (simp add: operator_indices_def sorted_wrt_filter)

lemma operator_indices_pos: "exp \<noteq> [] \<Longrightarrow> hd exp \<noteq> 0 \<Longrightarrow> i \<in> set (operator_indices exp) \<Longrightarrow> 0 < i"
  by (cases "i = 0") (auto simp: operator_indices_def hd_conv_nth)


lemma sorted_wrt_nth_less:
  "sorted_wrt (<) (xs :: nat list) \<Longrightarrow> i < j \<Longrightarrow> j < length xs \<Longrightarrow> xs ! i < xs ! j"
  by (simp add: sorted_wrt_iff_nth_less)

lemma view_bounds:
  assumes "exp \<noteq> []" "hd exp \<noteq> 0" "i \<le> length (operator_indices exp)"
  shows "(0 # operator_indices exp) ! i < (operator_indices exp @ [length exp]) ! i"
    and "(operator_indices exp @ [length exp]) ! i \<le> length exp"
proof -
  let ?is = "operator_indices exp"
  have lt: "\<And>j. j < length ?is \<Longrightarrow> ?is ! j < length exp"
    using operator_indices_lt nth_mem by blast
  have pos: "\<And>j. j < length ?is \<Longrightarrow> 0 < ?is ! j"
    using operator_indices_pos [OF assms(1,2)] nth_mem by blast
  show "(operator_indices exp @ [length exp]) ! i \<le> length exp"
    using assms(3) lt by (cases "i < length ?is") (auto simp: nth_append less_imp_le)
  show "(0 # ?is) ! i < (?is @ [length exp]) ! i"
  proof (cases i)
    case 0
    then show ?thesis using assms(1) pos [of 0] by (cases "?is = []") (auto simp: nth_append)
  next
    case (Suc j)
    then have j: "j < length ?is" using assms(3) by simp
    show ?thesis
    proof (cases "Suc j < length ?is")
      case True
      then show ?thesis using Suc sorted_wrt_nth_less [OF operator_indices_sorted, of j "Suc j" exp]
        by (simp add: nth_append)
    next
      case False
      then have eq: "length ?is = Suc j" using j by simp
      have "(0 # ?is) ! i = ?is ! j" using Suc by simp
      moreover have "(?is @ [length exp]) ! i = length exp" using Suc eq by (simp add: nth_append)
      ultimately show ?thesis using lt [OF j] by simp
    qed
  qed
qed

lemma piece_eq:
  "i \<le> length (operator_indices exp) \<Longrightarrow>
   piece exp i =
     take ((operator_indices exp @ [length exp]) ! i - (0 # operator_indices exp) ! i)
       (drop ((0 # operator_indices exp) ! i) exp)"
  by (simp add: piece_def tensor_split_nth)

lemma piece_nonempty:
  assumes "exp \<noteq> []" "hd exp \<noteq> 0" "i \<le> length (operator_indices exp)"
  shows "piece exp i \<noteq> []"
  using view_bounds [OF assms] by (simp add: piece_eq [OF assms(3)])

lemma piece_hd:
  assumes "exp \<noteq> []" "hd exp \<noteq> 0" "i \<le> length (operator_indices exp)"
  shows "hd (piece exp i) = exp ! ((0 # operator_indices exp) ! i)"
  using view_bounds [OF assms]
  by (simp add: piece_eq [OF assms(3)] hd_drop_conv_nth)


lemma update_hd_id: "xs \<noteq> [] \<Longrightarrow> xs[0 := hd xs] = xs"
  by (cases xs) simp_all

lemma update_append_hd: "xs \<noteq> [] \<Longrightarrow> (xs @ ys)[0 := v] = xs[0 := v] @ ys"
  by (cases xs) simp_all

lemma read_after_write:
  "read_sub (mem[s := v]) (View s n) = (read_sub mem (View s n))[0 := v]"
  by (simp add: drop_update_swap take_update_swap)

lemma split_column_eq:
  assumes ne: "exp \<noteq> []" and sos: "hd exp \<noteq> 0"
  shows "split_column exp =
           Inr (map (padded exp) [0..<Suc (length (operator_indices exp))], written exp)"
proof -
  let ?is = "operator_indices exp"
  let ?n = "length ?is"
  let ?L = "length exp"
  let ?S = "tensor_split 0 ?L ?is"
  let ?b = "\<lambda>i. (0 # ?is) ! i"
  let ?e = "\<lambda>i. (?is @ [?L]) ! i"
  let ?F = "\<lambda>v. Fresh (read_sub exp v @ [exp ! (?L - 1)])"
  have Snth: "\<And>i. i \<le> ?n \<Longrightarrow> ?S ! i = View (?b i) (?e i - ?b i)"
    by (simp add: tensor_split_nth)
  have bnd: "\<And>i. i \<le> ?n \<Longrightarrow> ?b i < ?e i" "\<And>i. i \<le> ?n \<Longrightarrow> ?e i \<le> ?L"
    using view_bounds [OF ne sos] by blast+
  have first: "first_addr (?S ! 0) = Inr 0"
    using Snth [of 0] bnd(1) [of 0] by simp
  have en: "?e ?n = ?L" by (simp add: nth_append)
  have Sne: "?S \<noteq> []"
    by (cases ?is) simp_all
  have lastS: "last ?S = View (?b ?n) (?L - ?b ?n)"
    using Snth [of ?n] en by (simp add: last_conv_nth [OF Sne])
  have bn: "?b ?n < ?L" using bnd(1) [of ?n] en by simp
  have last: "last_addr (last ?S) = Inr (?L - 1)"
    using bn by (simp add: lastS)
  have eos: "exp ! (?L - 1) = last exp"
    using ne by (simp add: last_conv_nth)
  have hd0: "exp ! 0 = hd exp"
    using ne by (simp add: hd_conv_nth)
  define S1 where "S1 = fold (append_eos exp (?L - 1)) [0..<?n] ?S"
  have S1: "S1 = map ?F (take ?n ?S) @ drop ?n ?S"
    unfolding S1_def by (rule fold_append_eos) simp
  have lenS1: "length S1 = Suc ?n" by (simp add: S1)
  have S1_lt: "\<And>j. j < ?n \<Longrightarrow> S1 ! j = Fresh (piece exp j @ [last exp])"
    using eos by (simp add: S1 nth_append piece_def)
  have S1_n: "S1 ! ?n = View (?b ?n) (?L - ?b ?n)"
    using Snth [of ?n] en by (simp add: S1 nth_append)
  have unfold: "split_column exp =
      bind (fold_res (set_sos 0) [0..<?n] (exp, S1))
        (\<lambda>(mem, sub_exps2). Inr (map (read_sub mem) sub_exps2, mem))"
    using lenS1 unfolding S1_def
    by (simp add: split_column_def Let_def first last)
  show ?thesis
  proof (cases ?n)
    case 0
    then have nil: "?is = []" by simp
    have "piece exp 0 = exp" by (simp add: piece_def nil)
    then have "padded exp 0 = exp"
      using ne by (simp add: padded_def nil update_hd_id)
    moreover have "S1 = [View 0 ?L]" by (simp add: S1 nil)
    ultimately show ?thesis
      by (simp add: unfold nil written_def)
  next
    case (Suc m)
    then have isne: "?is \<noteq> []" by auto
    let ?g = "\<lambda>j. if 1 \<le> j \<and> j \<le> m then fresh_upd (exp ! 0) (S1 ! j) else S1 ! j"
    let ?S2 = "map ?g [0..<length S1]"
    have fresh: "\<forall>j. 1 \<le> j \<and> j \<le> m \<longrightarrow> (\<exists>xs. S1 ! j = Fresh xs \<and> xs \<noteq> [])"
      using S1_lt Suc by simp
    have step1: "fold_res (set_sos 0) [0..<m] (exp, S1) = Inr (exp, ?S2)"
      by (rule fold_res_set_sos_fresh) (use lenS1 Suc fresh in auto)
    have "?S2 ! Suc m = ?g (Suc m)"
      using lenS1 Suc by (simp del: upt_Suc)
    then have S2n: "?S2 ! Suc m = View (?b ?n) (?L - ?b ?n)"
      using Suc S1_n by simp
    have step2: "set_sos 0 m (exp, ?S2) = Inr (exp[?b ?n := exp ! 0], ?S2)"
      using bn S2n by (simp add: set_sos_def)
    have "fold_res (set_sos 0) [0..<Suc m] (exp, S1) =
          bind (fold_res (set_sos 0) [0..<m] (exp, S1)) (set_sos 0 m)"
      by (simp add: fold_res_append)
    also have "\<dots> = set_sos 0 m (exp, ?S2)"
      by (simp only: step1 bind_Inr)
    finally have loop: "fold_res (set_sos 0) [0..<?n] (exp, S1) = Inr (exp[?b ?n := exp ! 0], ?S2)"
      by (simp only: step2 Suc)
    have bn_last: "?b ?n = last ?is"
      using isne Suc by (simp add: last_conv_nth)
    have mem: "exp[?b ?n := exp ! 0] = written exp"
      using isne by (simp add: written_def bn_last hd0 split: list.splits)
    have subs: "map (read_sub (exp[?b ?n := exp ! 0])) ?S2 = map (padded exp) [0..<Suc ?n]"
    proof (rule nth_equalityI)
      show "length (map (read_sub (exp[?b ?n := exp ! 0])) ?S2) = length (map (padded exp) [0..<Suc ?n])"
        by (simp add: lenS1)
    next
      fix j assume "j < length (map (read_sub (exp[?b ?n := exp ! 0])) ?S2)"
      then have j: "j \<le> ?n" by (simp add: lenS1)
      have pne: "piece exp j \<noteq> []" using piece_nonempty [OF ne sos j] .
      consider "j = 0" | "1 \<le> j" "j \<le> m" | "j = ?n"
        using j Suc by linarith
      then have "read_sub (exp[?b ?n := exp ! 0]) (?g j) = padded exp j"
      proof cases
        case 1
        have "hd (piece exp 0) = hd exp"
          using piece_hd [OF ne sos, of 0] hd0 by simp
        then have "(piece exp 0)[0 := hd exp] = piece exp 0"
          using pne 1 update_hd_id [of "piece exp 0"] by simp
        then show ?thesis using 1 Suc S1_lt [of 0] by (simp add: padded_def)
      next
        case 2
        then have "j < ?n" using Suc by simp
        then show ?thesis
          using 2 pne S1_lt [of j] by (simp add: padded_def update_append_hd hd0)
      next
        case 3
        have "\<not> (1 \<le> j \<and> j \<le> m)" using 3 Suc by simp
        then have "?g j = View (?b ?n) (?L - ?b ?n)" using 3 S1_n by simp
        moreover have "piece exp ?n = read_sub exp (View (?b ?n) (?L - ?b ?n))"
          using Snth [of ?n] en by (simp add: piece_def)
        ultimately show ?thesis
          using 3 by (simp only: read_after_write padded_def hd0) simp
      qed
      then show "map (read_sub (exp[?b ?n := exp ! 0])) ?S2 ! j = map (padded exp) [0..<Suc ?n] ! j"
        using j by (simp add: lenS1 del: upt_Suc)
    qed
    show ?thesis
      unfolding unfold loop using subs mem by simp
  qed
qed






subsection \<open>The reduction loops\<close>

lemma fold_reduce_step:
  "fold (reduce_step T) (concat (map (\<lambda>(s, e). [RStr s, REnc e]) rest)) (NoOp, buf) =
     (NoOp,
      \<lparr>enc_hidden = foldl (\<lambda>v (s, e). operate T (if s = ''+'' then Add else Subtract) v e ''enc_hidden'')
                      (enc_hidden buf) rest,
       enc_outputs = foldl (\<lambda>v (s, e). operate T (if s = ''+'' then Add else Subtract) v e ''enc_outputs'')
                      (enc_outputs buf) rest\<rparr>)"
proof (induction rest arbitrary: buf)
  case Nil
  then show ?case by simp
next
  case (Cons p rest)
  obtain s e where p: "p = (s, e)" by (cases p)
  show ?case by (simp add: p Cons.IH)
qed

lemma reduce_interleave:
  "reduce_representations T (interleave e0 rest) =
     \<lparr>enc_hidden = foldl (\<lambda>v (s, e). operate T (if s = ''+'' then Add else Subtract) v e ''enc_hidden'')
                      (first_value e0 ''enc_hidden'') rest,
      enc_outputs = foldl (\<lambda>v (s, e). operate T (if s = ''+'' then Add else Subtract) v e ''enc_outputs'')
                      (first_value e0 ''enc_outputs'') rest\<rparr>"
  by (simp add: reduce_representations_def interleave_def fold_reduce_step)




lemma first_value_absent: "map_of e key = None \<Longrightarrow> first_value e key = PNone"
  by (simp add: first_value_def getattr_def or_none_def)

lemma operate_none [simp]: "operate T f PNone e key = PNone"
  by (simp add: operate_def apply_op_def or_none_def bind_def split: sum.splits)

lemma operate_absent: "map_of e key = None \<Longrightarrow> operate T f v e key = PNone"
  by (simp add: operate_def getattr_def or_none_def)

lemma foldl_operate_none:
  "foldl (\<lambda>v (s, e). operate T (if s = ''+'' then Add else Subtract) v e key) PNone rest = PNone"
  by (induction rest) (simp_all split: prod.splits)

lemma foldl_operate_absent:
  "\<exists>e \<in> set (map snd rest). map_of e key = None \<Longrightarrow>
   foldl (\<lambda>v (s, e). operate T (if s = ''+'' then Add else Subtract) v e key) v rest = PNone"
proof (induction rest arbitrary: v)
  case Nil
  then show ?case by simp
next
  case (Cons p rest)
  obtain s e where p: "p = (s, e)" by (cases p)
  show ?case
  proof (cases "map_of e key = None")
    case True
    then show ?thesis by (simp add: p operate_absent foldl_operate_none)
  next
    case False
    then have "\<exists>e \<in> set (map snd rest). map_of e key = None"
      using Cons.prems p by auto
    then show ?thesis using Cons.IH by (simp add: p)
  qed
qed


lemma nth_res_simps [simp]:
  "nth_res (x # xs) 0 = Inr x"
  "nth_res (x # xs) (Suc n) = nth_res xs n"
  "nth_res [] n = Inl IndexError"
  by (simp_all add: nth_res_def)

lemma getattr_Some: "map_of e key = Some v \<Longrightarrow> getattr e key = Inr v"
  by (simp add: getattr_def)

lemma getattr_None: "map_of e key = None \<Longrightarrow> getattr e key = Inl AttributeError"
  by (simp add: getattr_def)




lemma fold_res_update_error:
  assumes "ks \<noteq> []" "g (hd ks) = Inl err"
  shows "fold_res (\<lambda>key results. bind (g key) (\<lambda>v. Inr (AList.update key v results))) ks acc =
           Inl err"
  using assms by (cases ks) simp_all


lemma map_res_encode_expression:
  assumes "\<forall>t \<in> set (t0 # map snd rest). encoder M (crop (source t)) = Inr (enc t)"
  shows "map_res (encode_item M crop) (expression t0 rest) =
           Inr (interleave (enc t0) (map (\<lambda>(s, t). (s, enc t)) rest))"
proof -
  have "(\<forall>t \<in> set (map snd rest). encoder M (crop (source t)) = Inr (enc t)) \<Longrightarrow>
        map_res (encode_item M crop) (concat (map (\<lambda>(s, t). [Str s, Term t]) rest)) =
          Inr (concat (map (\<lambda>(s, e). [RStr s, REnc e]) (map (\<lambda>(s, t). (s, enc t)) rest)))"
  proof (induction rest)
    case Nil
    then show ?case by simp
  next
    case (Cons p rest)
    obtain s t where p: "p = (s, t)" by (cases p)
    show ?case using Cons by (simp add: p encode_item_def)
  qed
  then show ?thesis
    using assms by (simp add: expression_def interleave_def encode_item_def)
qed

lemma buffer_get_simps [simp]:
  "buffer_get buf ''enc_hidden'' = enc_hidden buf"
  "buffer_get buf ''enc_outputs'' = enc_outputs buf"
  by (simp_all add: buffer_get_def)


lemma map_of_set_present:
  "map_of (set_present k v al) k' = (if k' = k \<and> v \<noteq> PNone then Some v else map_of al k')"
  by (cases v) (simp_all add: set_present_def update_conv')

lemma sources_of_expression [simp]: "sources_of (expression t0 terms) ! 0 = source t0"
  "0 < length (sources_of (expression t0 terms))"
  by (simp_all add: sources_of_def expression_def)

lemma decoder_inputs_expression:
  "decoder_inputs (expression t0 terms) buf =
     Inr \<lparr>dec_source = source t0, dec_transform = annotation t0,
          dec_attrs = set_present ''enc_outputs'' (enc_outputs buf)
                        (set_present ''enc_hidden'' (enc_hidden buf) [])\<rparr>"
proof -
  have "nth_res (sources_of (expression t0 terms)) 0 = Inr (source t0)"
    by (simp add: sources_of_def expression_def)
  moreover have "nth_res (expression t0 terms) 0 = Inr (Term t0)"
    by (simp add: expression_def)
  ultimately show ?thesis by (simp add: decoder_inputs_def)
qed

lemma expression_single: "expression t [] = [Term t]"
  by (simp add: expression_def)

lemma interleave_single: "interleave e [] = [REnc e]"
  by (simp add: interleave_def)

lemma reduce_key_single:
  assumes "map_of e k = Some v"
  shows "reduce_key T [e] k = Inl IndexError"
proof (cases v)
  case (PTuple xs)
  then show ?thesis
    using assms
    by (cases xs)
      (simp_all add: reduce_key_def term_field_def term_part_def minus_plus_def getattr_Some
        subscript_def)
qed (use assms in \<open>simp_all add: reduce_key_def term_field_def minus_plus_def getattr_Some\<close>)

lemma reduce_encodings_single:
  assumes "keys e \<noteq> []"
  shows "reduce_encodings T [e] = Inl IndexError"
proof -
  obtain k v rest where e: "e = (k, v) # rest"
    using assms by (cases e) (auto simp: keys_def)
  then have "reduce_key T [e] k = Inl IndexError"
    by (intro reduce_key_single [of e k v]) simp
  then show ?thesis
    by (simp add: reduce_encodings_def e keys_def)
qed

lemma isl_bind_left: "isl m \<Longrightarrow> isl (bind m f)"
  by (cases m) simp_all

lemma isl_bind_right: "(\<And>x. isl (f x)) \<Longrightarrow> isl (bind m f)"
  by (cases m) simp_all

lemma isl_minus_plus: "isl y \<or> isl z \<Longrightarrow> isl (minus_plus ap x y z)"
  by (auto simp: minus_plus_def bind_def split: sum.splits)

lemma isl_reduce_key:
  assumes "map_of b1 k = None \<or> map_of b2 k = None"
  shows "isl (reduce_key T (b0 # b1 # b2 # bs) k)"
proof -
  have f: "isl (term_field (b0 # b1 # b2 # bs) 1 k) \<or> isl (term_field (b0 # b1 # b2 # bs) 2 k)"
    using assms by (auto simp: term_field_def getattr_None numeral_2_eq_2)
  then have p: "\<And>i j. isl (term_part T (b0 # b1 # b2 # bs) 1 k i) \<or>
                     isl (term_part T (b0 # b1 # b2 # bs) 2 k j)"
    by (auto simp: term_part_def isl_bind_left)
  show ?thesis
    unfolding reduce_key_def
  proof (rule isl_bind_right)
    fix v0 :: "'a pyval"
    show "isl (case v0 of
           PTuple x \<Rightarrow>
             bind (minus_plus (tensor_op T) (term_part T (b0 # b1 # b2 # bs) 0 k 0)
                (term_part T (b0 # b1 # b2 # bs) 1 k 0) (term_part T (b0 # b1 # b2 # bs) 2 k 0))
               (\<lambda>a. bind (minus_plus (tensor_op T) (term_part T (b0 # b1 # b2 # bs) 0 k 1)
                    (term_part T (b0 # b1 # b2 # bs) 1 k 0) (term_part T (b0 # b1 # b2 # bs) 2 k 1))
                    (\<lambda>b. Inr (PTuple [a, b])))
         | _ \<Rightarrow> minus_plus (apply_op T) (term_field (b0 # b1 # b2 # bs) 0 k)
              (term_field (b0 # b1 # b2 # bs) 1 k) (term_field (b0 # b1 # b2 # bs) 2 k))"
      using f p [of 0 0] by (cases v0) (auto intro!: isl_bind_left isl_minus_plus)
  qed
qed

lemma fold_res_update_fails:
  "k \<in> set ks \<Longrightarrow> isl (g k) \<Longrightarrow>
   isl (fold_res (\<lambda>key results. bind (g key) (\<lambda>v. Inr (AList.update key v results))) ks acc)"
proof (induction ks arbitrary: acc)
  case Nil
  then show ?case by simp
next
  case (Cons a ks)
  show ?case
  proof (cases "g a")
    case (Inl e)
    then show ?thesis by simp
  next
    case (Inr v)
    then have "a \<noteq> k" using Cons.prems(2) by auto
    then have "k \<in> set ks" using Cons.prems(1) by simp
    then show ?thesis using Cons.IH Cons.prems(2) Inr by simp
  qed
qed

lemma fold_res_update_keys:
  "fold_res (\<lambda>key results. bind (g key) (\<lambda>v. Inr (AList.update key v results))) ks acc = Inr r \<Longrightarrow>
   fst ` set r = fst ` set acc \<union> set ks"
proof (induction ks arbitrary: acc)
  case Nil
  then show ?case by simp
next
  case (Cons a ks)
  from Cons.prems obtain v where v: "g a = Inr v"
    and rest: "fold_res (\<lambda>key results. bind (g key) (\<lambda>v. Inr (AList.update key v results))) ks
                 (AList.update a v acc) = Inr r"
    by (cases "g a") simp_all
  show ?case using Cons.IH [OF rest] by (auto simp: dom_update)
qed

lemma reduce_absent:
  assumes "\<exists>e \<in> set (e0 # map snd rest). map_of e key = None"
  shows "foldl (\<lambda>v (s, e). operate T (if s = ''+'' then Add else Subtract) v e key)
           (first_value e0 key) rest = PNone"
proof (cases "map_of e0 key = None")
  case True
  then show ?thesis by (simp add: first_value_absent foldl_operate_none)
next
  case False
  then have "\<exists>e \<in> set (map snd rest). map_of e key = None" using assms by auto
  then show ?thesis by (rule foldl_operate_absent)
qed

lemma cat_none [simp]: "cat T PNone v = Inl TypeError"
  by (simp add: cat_def)

lemma isl_reduce_key_missing:
  assumes "isl (term_field encs 1 k) \<or> isl (term_field encs 2 k)"
  shows "isl (reduce_key T encs k)"
proof -
  have p: "\<And>i j. isl (term_part T encs 1 k i) \<or> isl (term_part T encs 2 k j)"
    using assms by (auto simp: term_part_def isl_bind_left)
  show ?thesis
    unfolding reduce_key_def
  proof (rule isl_bind_right)
    fix v0 :: "'a pyval"
    show "isl (case v0 of
           PTuple x \<Rightarrow>
             bind (minus_plus (tensor_op T) (term_part T encs 0 k 0)
                (term_part T encs 1 k 0) (term_part T encs 2 k 0))
               (\<lambda>a. bind (minus_plus (tensor_op T) (term_part T encs 0 k 1)
                    (term_part T encs 1 k 0) (term_part T encs 2 k 1))
                    (\<lambda>b. Inr (PTuple [a, b])))
         | _ \<Rightarrow> minus_plus (apply_op T) (term_field encs 0 k)
              (term_field encs 1 k) (term_field encs 2 k))"
      using assms p [of 0 0] by (cases v0) (auto intro!: isl_bind_left isl_minus_plus)
  qed
qed

lemma map_res_total:
  "\<forall>x \<in> set xs. f x = Inr (g x) \<Longrightarrow> map_res f xs = Inr (map g xs)"
  by (induction xs) simp_all


lemma reduce_key_first_three:
  "reduce_key T (e0 # e1 # e2 # es) k = reduce_key T [e0, e1, e2] k"
  by (simp add: reduce_key_def term_field_def term_part_def numeral_2_eq_2
      cong: pyval.case_cong)

lemma reduce_encodings_first_three:
  "reduce_encodings T (e0 # e1 # e2 # es) = reduce_encodings T [e0, e1, e2]"
  by (simp add: reduce_encodings_def reduce_key_first_three [of T e0 e1 e2 es])

lemma reduce_encodings_two:
  assumes "keys e0 \<noteq> []"
  shows "isl (reduce_encodings T [e0, e1])"
proof -
  obtain k ks where k: "keys e0 = k # ks" using assms by (cases "keys e0") auto
  have "isl (term_field [e0, e1] 2 k)"
    by (simp add: term_field_def numeral_2_eq_2)
  then have "isl (reduce_key T [e0, e1] k)"
    by (intro isl_reduce_key_missing) simp
  then show ?thesis
    by (simp add: reduce_encodings_def k isl_bind_left)
qed

lemma isl_bind_iff: "isl (bind m f) \<longleftrightarrow> isl m \<or> (\<exists>x. m = Inr x \<and> isl (f x))"
  by (cases m) simp_all









lemma written_length [simp]: "length (written exp) = length exp"
  by (simp add: written_def split: list.splits)

lemma written_nth:
  "p < length exp \<Longrightarrow>
   written exp ! p =
     (if operator_indices exp \<noteq> [] \<and> p = last (operator_indices exp) then hd exp else exp ! p)"
  by (cases "operator_indices exp") (simp_all add: written_def nth_list_update)

lemma permute10_rows:
  assumes "m \<noteq> []"
  shows "permute10 m = map (\<lambda>j. map (\<lambda>row. row ! j) m) [0..<length (hd m)]"
  using assms by (cases m) (simp_all add: permute10_def)

subsection \<open>The splitter\<close>







text \<open>
  Claim C10, as amended. \<^verbatim>\<open>forward_batch_expr\<close> runs the splitter on \<^verbatim>\<open>batch.source\<close>.
  For a batch with at least one row and one column whose first row holds no operator
  marker, the splitter leaves the caller's tensor with its shape, and writes to one
  position per column at most: in a column with operator markers, the position of the
  last marker receives the first token of the column. Every other position, the earlier
  operator markers among them, keeps its token.
\<close>

theorem split_writes_to_source:
  assumes "src \<noteq> []" and "hd src \<noteq> []"
    and "\<forall>row \<in> set src. length row = length (hd src)"
    and "\<forall>x \<in> set (hd src). x \<noteq> 0"
  shows "\<exists>exprs src'.
     split_and_pad_expressions src = Inr (exprs, src') \<and>
     length src' = length src \<and>
     (\<forall>i < length src. length (src' ! i) = length (src ! i) \<and>
        (\<forall>j < length (src ! i).
           src' ! i ! j =
             (if operator_indices (permute10 src ! j) \<noteq> [] \<and>
                 i = last (operator_indices (permute10 src ! j))
              then hd src ! j else src ! i ! j)))"
proof -
  let ?T = "length src"
  let ?B = "length (hd src)"
  let ?cols = "permute10 src"
  let ?res = "\<lambda>c. (map (padded c) [0..<Suc (length (operator_indices c))], written c)"
  have cols: "?cols = map (\<lambda>j. map (\<lambda>row. row ! j) src) [0..<?B]"
    by (rule permute10_rows [OF assms(1)])
  have ncols: "length ?cols = ?B" by (simp add: cols)
  have B: "0 < ?B" using assms(2) by simp
  have T: "0 < ?T" using assms(1) by simp
  have col: "\<And>j. j < ?B \<Longrightarrow> ?cols ! j = map (\<lambda>row. row ! j) src"
    by (simp add: cols)
  have col_ok: "\<forall>c \<in> set ?cols. split_column c = Inr (?res c)"
  proof
    fix c assume "c \<in> set ?cols"
    then obtain j where j: "j < ?B" and c: "c = map (\<lambda>row. row ! j) src"
      by (auto simp: cols)
    have ne: "c \<noteq> []" using assms(1) c by simp
    have "hd c = hd src ! j" using assms(1) c by (simp add: hd_map)
    moreover have "hd src ! j \<in> set (hd src)" using j by simp
    ultimately have "hd c \<noteq> 0" using assms(4) by simp
    then show "split_column c = Inr (?res c)"
      using split_column_eq [OF ne] by simp
  qed
  have run: "split_and_pad_expressions src =
               Inr (map (\<lambda>c. fst (?res c)) ?cols, permute10 (map written ?cols))"
    using map_res_total [OF col_ok]
    by (simp add: split_and_pad_expressions_def comp_def)
  let ?cols' = "map written ?cols"
  have ne': "?cols' \<noteq> []" using B ncols by auto
  have "?cols \<noteq> []" using B ncols by auto
  then have "hd ?cols' = written (?cols ! 0)"
    by (simp add: hd_map hd_conv_nth)
  then have hdlen: "length (hd ?cols') = ?T"
    using col [of 0] B by simp
  have src': "permute10 ?cols' = map (\<lambda>i. map (\<lambda>c. c ! i) ?cols') [0..<?T]"
    using permute10_rows [OF ne'] hdlen by simp
  have rowlen: "\<And>i. i < ?T \<Longrightarrow> length (src ! i) = ?B"
    using assms(3) by simp
  have cell: "permute10 ?cols' ! i ! j =
      (if operator_indices (?cols ! j) \<noteq> [] \<and> i = last (operator_indices (?cols ! j))
       then hd src ! j else src ! i ! j)"
    if i: "i < ?T" and j: "j < ?B" for i j
  proof -
    have "permute10 ?cols' ! i ! j = written (?cols ! j) ! i"
      using i j ncols by (simp add: src')
    moreover have "i < length (?cols ! j)" using i j by (simp add: col)
    moreover have "hd (?cols ! j) = hd src ! j"
      using assms(1) j by (simp add: col hd_map)
    moreover have "?cols ! j ! i = src ! i ! j"
      using i j by (simp add: col)
    ultimately show ?thesis by (simp add: written_nth)
  qed
  have "length (permute10 ?cols') = ?T" by (simp add: src')
  moreover have "\<forall>i < ?T. length (permute10 ?cols' ! i) = length (src ! i) \<and>
        (\<forall>j < length (src ! i).
           permute10 ?cols' ! i ! j =
             (if operator_indices (?cols ! j) \<noteq> [] \<and> i = last (operator_indices (?cols ! j))
              then hd src ! j else src ! i ! j))"
    using cell rowlen ncols by (simp add: src')
  ultimately show ?thesis using run by blast
qed

theorem split_writes_to_source_witness:
  "split_and_pad_expressions [[1], [3], [0], [4], [0], [5], [2]] =
     Inr ([[[1, 3, 2], [1, 4, 2], [1, 5, 2]]], [[1], [3], [0], [4], [1], [5], [2]]) \<and>
   operator_indices (permute10 [[1], [3], [0], [4], [0], [5], [2]] ! 0) = [2, 4] \<and>
   [[1], [3], [0], [4], [1], [5], [2 :: int]] ! 4 ! 0 = hd [[1], [3], [0], [4], [0], [5], [2]] ! 0 \<and>
   [[1], [3], [0], [4], [1], [5], [2 :: int]] ! 2 ! 0 = [[1], [3], [0], [4], [0], [5], [2]] ! 2 ! 0"
proof -
  let ?S = "[[1], [3], [0], [4], [0], [5], [2]] :: tensor2"
  have run: "split_and_pad_expressions ?S =
     Inr ([[[1, 3, 2], [1, 4, 2], [1, 5, 2]]], [[1], [3], [0], [4], [1], [5], [2]])"
    by code_simp
  have ix: "operator_indices (permute10 ?S ! 0) = [2, 4]"
    by code_simp
  have h: "?S \<noteq> []" "hd ?S \<noteq> []" "\<forall>row \<in> set ?S. length row = length (hd ?S)"
    "\<forall>x \<in> set (hd ?S). x \<noteq> 0"
    by simp_all
  obtain exprs src' where a: "split_and_pad_expressions ?S = Inr (exprs, src')"
    and b: "\<forall>i < length ?S. length (src' ! i) = length (?S ! i) \<and>
        (\<forall>j < length (?S ! i).
           src' ! i ! j =
             (if operator_indices (permute10 ?S ! j) \<noteq> [] \<and>
                 i = last (operator_indices (permute10 ?S ! j))
              then hd ?S ! j else ?S ! i ! j))"
    using split_writes_to_source [OF h] by blast
  from a run have src': "src' = [[1], [3], [0], [4], [1], [5], [2]]" by simp
  have "src' ! 4 ! 0 = hd ?S ! 0"
    using b [rule_format, of 4, THEN conjunct2, rule_format, of 0] by (simp add: ix)
  moreover have "src' ! 2 ! 0 = ?S ! 2 ! 0"
    using b [rule_format, of 2, THEN conjunct2, rule_format, of 0] by (simp add: ix)
  ultimately show ?thesis using run ix unfolding src' by blast
qed

text \<open>
  Claim C10 as it is worded fails on a column with two operator markers: the first of
  them is still in the caller's tensor after the split.
\<close>

theorem all_markers_rewritten_counterexample:
  "split_and_pad_expressions [[1], [3], [0], [4], [0], [5], [2]] =
     Inr ([[[1, 3, 2], [1, 4, 2], [1, 5, 2]]], [[1], [3], [0], [4], [1], [5], [2]]) \<and>
   \<not> all_markers_rewritten [[1], [3], [0], [4], [0], [5], [2]]
        [[1], [3], [0], [4], [1], [5], [2]]"
proof -
  have "split_and_pad_expressions [[1], [3], [0], [4], [0], [5], [2]] =
     Inr ([[[1, 3, 2], [1, 4, 2], [1, 5, 2]]], [[1], [3], [0], [4], [1], [5], [2]])"
    by code_simp
  moreover have "\<not> all_markers_rewritten [[1], [3], [0], [4], [0], [5], [2]]
        [[1], [3], [0], [4], [1], [5], [2]]"
  proof
    assume "all_markers_rewritten [[1], [3], [0], [4], [0], [5], [2]]
        [[1], [3], [0], [4], [1], [5], [2]]"
    then have "\<forall>i < length [[1], [3], [0], [4], [0], [5], [2 :: int]].
        \<forall>j < length ([[1], [3], [0], [4], [0], [5], [2 :: int]] ! i).
          [[1], [3], [0], [4], [0], [5], [2 :: int]] ! i ! j = 0 \<longrightarrow>
          [[1], [3], [0], [4], [1], [5], [2 :: int]] ! i ! j =
            hd [[1], [3], [0], [4], [0], [5], [2]] ! j"
      unfolding all_markers_rewritten_def .
    from this [rule_format, of 2 0] show False by simp
  qed
  ultimately show ?thesis by simp
qed

subsection \<open>The reducers\<close>




text \<open>
  Claim C2 fails on the code. With the hidden states (10, 20), (1, 2) and (100, 200) the
  second component of the result is 20 - 1 + 200: the code subtracts position 0 of the
  second term where position 1 is meant.
\<close>

theorem tuple_reduction_mixes_positions:
  "reduce_encodings ftorch
     [[(''enc_hidden'', PTuple [([1], [10]), ([1], [20])])],
      [(''enc_hidden'', PTuple [([1], [1]), ([1], [2])])],
      [(''enc_hidden'', PTuple [([1], [100]), ([1], [200])])]] =
     Inr [(''enc_hidden'', PTuple [([1], [109]), ([1], [219])])]"
  by code_simp



text \<open>
  Claim C3, as amended. For an expression of a single term the reduction of
  \<^verbatim>\<open>forward_expression\<close> and \<^verbatim>\<open>forward_expression_eos\<close> leaves in each field of the
  buffer the term's own value (\<^verbatim>\<open>None\<close> for a field the encoding lacks), and
  \<^verbatim>\<open>forward_expression\<close> hands the decoder the source and the annotation of the term with
  exactly those of the two fields that are present and not \<^verbatim>\<open>None\<close>, unchanged. The
  reduction of \<^verbatim>\<open>forward_batch_expr\<close> wants three terms: on a single encoding that has
  a field it raises IndexError.
\<close>

theorem single_term_reduction:
  "((key = ''enc_hidden'' \<or> key = ''enc_outputs'') \<longrightarrow>
      buffer_get (reduce_representations T [REnc e]) key =
        (case map_of e key of None \<Rightarrow> PNone | Some v \<Rightarrow> v)) \<and>
   (encoder M (source t) = Inr e \<longrightarrow>
      (\<exists>d. forward_expression M T [Term t] = decoder M d \<and>
           dec_source d = source t \<and> dec_transform d = annotation t \<and>
           (\<forall>k. map_of (dec_attrs d) k =
                  (if (k = ''enc_hidden'' \<or> k = ''enc_outputs'') \<and> map_of e k \<noteq> Some PNone
                   then map_of e k else None)))) \<and>
   (keys e \<noteq> [] \<longrightarrow> reduce_encodings T [e] = Inl IndexError)"
proof (intro conjI impI)
  have red: "reduce_representations T [REnc e] =
          \<lparr>enc_hidden = first_value e ''enc_hidden'', enc_outputs = first_value e ''enc_outputs''\<rparr>"
    using reduce_interleave [of T e "[]"] by (simp add: interleave_single)
  have fv: "\<And>k. first_value e k = (case map_of e k of None \<Rightarrow> PNone | Some v \<Rightarrow> v)"
    by (simp add: first_value_def getattr_def or_none_def split: option.splits)
  {
    assume "key = ''enc_hidden'' \<or> key = ''enc_outputs''"
    then show "buffer_get (reduce_representations T [REnc e]) key =
        (case map_of e key of None \<Rightarrow> PNone | Some v \<Rightarrow> v)"
      by (auto simp: red fv)
  }
  {
    assume enc: "encoder M (source t) = Inr e"
    let ?buf = "reduce_representations T [REnc e]"
    let ?d = "\<lparr>dec_source = source t, dec_transform = annotation t,
          dec_attrs = set_present ''enc_outputs'' (enc_outputs ?buf)
                        (set_present ''enc_hidden'' (enc_hidden ?buf) [])\<rparr>"
    have "map_res (encode_item M (\<lambda>src. src)) [Term t] = Inr [REnc e]"
      using enc by (simp add: encode_item_def)
    then have run: "forward_expression M T [Term t] = decoder M ?d"
      using decoder_inputs_expression [of t "[]" ?buf]
      by (simp add: forward_expression_def expression_single)
    have attrs: "\<forall>k. map_of (dec_attrs ?d) k =
                  (if (k = ''enc_hidden'' \<or> k = ''enc_outputs'') \<and> map_of e k \<noteq> Some PNone
                   then map_of e k else None)"
      by (auto simp: map_of_set_present red fv split: option.splits)
    show "\<exists>d. forward_expression M T [Term t] = decoder M d \<and>
           dec_source d = source t \<and> dec_transform d = annotation t \<and>
           (\<forall>k. map_of (dec_attrs d) k =
                  (if (k = ''enc_hidden'' \<or> k = ''enc_outputs'') \<and> map_of e k \<noteq> Some PNone
                   then map_of e k else None))"
      using run attrs by (intro exI [of _ ?d]) simp
  }
  {
    assume "keys e \<noteq> []"
    then show "reduce_encodings T [e] = Inl IndexError"
      by (rule reduce_encodings_single)
  }
qed

theorem single_term_reduction_witness:
  "buffer_get
     (reduce_representations ftorch
        [REnc [(''enc_hidden'', PTensor ([1, 1, 1], [15])),
               (''enc_outputs'', PTensor ([5, 1, 1], [1, 3, 4, 5, 2]))]])
     ''enc_hidden'' = PTensor ([1, 1, 1], [15]) \<and>
   (\<exists>d. forward_expression toy_model ftorch
          [Term \<lparr>source = [[1], [3], [4], [5], [2]], annotation = [[7]]\<rparr>] = Inr d \<and>
        dec_source d = [[1], [3], [4], [5], [2]] \<and> dec_transform d = [[7]] \<and>
        map_of (dec_attrs d) ''enc_hidden'' = Some (PTensor ([1, 1, 1], [15])) \<and>
        map_of (dec_attrs d) ''enc_outputs'' = Some (PTensor ([5, 1, 1], [1, 3, 4, 5, 2]))) \<and>
   reduce_encodings ftorch
     [[(''enc_hidden'', PTensor ([1, 1, 1], [15])),
       (''enc_outputs'', PTensor ([5, 1, 1], [1, 3, 4, 5, 2]))]] = Inl IndexError"
proof -
  let ?t = "\<lparr>source = [[1], [3], [4], [5], [2]], annotation = [[7]]\<rparr>"
  let ?e = "[(''enc_hidden'', PTensor ([1, 1, 1], [15])),
             (''enc_outputs'', PTensor ([5, 1, 1], [1, 3, 4, 5, 2]))] :: ftensor modelio"
  note inst = single_term_reduction [of "''enc_hidden''" ftorch "?e" toy_model "?t"]
  have enc: "encoder toy_model (source ?t) = Inr ?e"
    by (simp add: toy_model_def toy_encoder_def toy_hidden_def toy_outputs_def width_def
        permute10_def)
  have c1: "buffer_get (reduce_representations ftorch [REnc ?e]) ''enc_hidden'' =
              (case map_of ?e ''enc_hidden'' of None \<Rightarrow> PNone | Some v \<Rightarrow> v)"
    using inst [THEN conjunct1] by simp
  obtain d where d: "forward_expression toy_model ftorch [Term ?t] = decoder toy_model d"
    "dec_source d = source ?t" "dec_transform d = annotation ?t"
    "\<forall>k. map_of (dec_attrs d) k =
           (if (k = ''enc_hidden'' \<or> k = ''enc_outputs'') \<and> map_of ?e k \<noteq> Some PNone
            then map_of ?e k else None)"
    using inst [THEN conjunct2, THEN conjunct1, THEN mp, OF enc] by blast
  have c2: "forward_expression toy_model ftorch [Term ?t] = Inr d \<and>
        dec_source d = [[1], [3], [4], [5], [2]] \<and> dec_transform d = [[7]] \<and>
        map_of (dec_attrs d) ''enc_hidden'' = Some (PTensor ([1, 1, 1], [15])) \<and>
        map_of (dec_attrs d) ''enc_outputs'' = Some (PTensor ([5, 1, 1], [1, 3, 4, 5, 2]))"
    using d by (simp add: toy_model_def)
  have c3: "reduce_encodings ftorch [?e] = Inl IndexError"
    using inst [THEN conjunct2, THEN conjunct2] by (simp add: keys_def)
  show ?thesis using c1 c2 c3 by auto
qed

text \<open>
  Claim C3 as it is worded fails in \<^verbatim>\<open>forward_batch_expr\<close>: on a batch of one column
  without operator marker (one term, zero operators) the reduction raises IndexError.
\<close>

theorem single_term_batch_counterexample:
  "forward_batch_expr toy_model ftorch
     \<lparr>source = [[1], [3], [4], [5], [2]], annotation = [[7]]\<rparr> 0 = Inl IndexError"
  by code_simp

text \<open>
  Claim C8, as amended. In \<^verbatim>\<open>forward_expression\<close> a field of the buffer that the
  encoding of some term lacks is left out of the input of the decoder, and the call
  does not fail for it. In the reduction of \<^verbatim>\<open>forward_batch_expr\<close> a field that the
  first encoding lacks is left out of the result, and a field of the first encoding
  that the second or third lacks makes the reduction fail. In
  \<^verbatim>\<open>forward_expression_eos\<close> a term without per-step outputs makes the call fail.
\<close>

theorem absent_field_is_omitted:
  "((key = ''enc_hidden'' \<or> key = ''enc_outputs'') \<and>
    (\<forall>t \<in> set (t0 # map snd terms). encoder M (source t) = Inr (enc t)) \<and>
    (\<exists>t \<in> set (t0 # map snd terms). map_of (enc t) key = None) \<longrightarrow>
      (\<exists>d. forward_expression M T (expression t0 terms) = decoder M d \<and>
           dec_source d = source t0 \<and> dec_transform d = annotation t0 \<and>
           map_of (dec_attrs d) key = None)) \<and>
   (map_of b0 k = None \<and> reduce_encodings T (b0 # bs) = Inr r \<longrightarrow> map_of r k = None) \<and>
   (k \<in> set (keys b0) \<and> (map_of b1 k = None \<or> map_of b2 k = None) \<longrightarrow>
      isl (reduce_encodings T (b0 # b1 # b2 # bs))) \<and>
   ((\<forall>t \<in> set (t0 # map snd terms).
        encoder M (take (length (source t) - 1) (source t)) = Inr (enc t)) \<and>
    (\<exists>t \<in> set (t0 # map snd terms). map_of (enc t) ''enc_outputs'' = None) \<longrightarrow>
      isl (forward_expression_eos M T (expression t0 terms)))"
proof (intro conjI impI)
  let ?rest = "map (\<lambda>(s, t). (s, enc t)) terms"
  have absent: "buffer_get (reduce_representations T (interleave (enc t0) ?rest)) key' = PNone"
    if "key' = ''enc_hidden'' \<or> key' = ''enc_outputs''"
      and "\<exists>t \<in> set (t0 # map snd terms). map_of (enc t) key' = None" for key'
  proof -
    have "\<exists>e \<in> set (enc t0 # map snd ?rest). map_of e key' = None"
      using that(2) by (auto simp: image_iff split: prod.splits)
    from reduce_absent [OF this] that(1) show ?thesis
      by (auto simp: reduce_interleave)
  qed
  {
    assume a: "(key = ''enc_hidden'' \<or> key = ''enc_outputs'') \<and>
      (\<forall>t \<in> set (t0 # map snd terms). encoder M (source t) = Inr (enc t)) \<and>
      (\<exists>t \<in> set (t0 # map snd terms). map_of (enc t) key = None)"
    let ?buf = "reduce_representations T (interleave (enc t0) ?rest)"
    let ?d = "\<lparr>dec_source = source t0, dec_transform = annotation t0,
          dec_attrs = set_present ''enc_outputs'' (enc_outputs ?buf)
                        (set_present ''enc_hidden'' (enc_hidden ?buf) [])\<rparr>"
    have "map_res (encode_item M (\<lambda>src. src)) (expression t0 terms) = Inr (interleave (enc t0) ?rest)"
      using a by (intro map_res_encode_expression) simp
    then have run: "forward_expression M T (expression t0 terms) = decoder M ?d"
      by (simp add: forward_expression_def decoder_inputs_expression)
    have "buffer_get ?buf key = PNone" using absent a by blast
    then have "map_of (dec_attrs ?d) key = None"
      using a by (auto simp: map_of_set_present)
    then show "\<exists>d. forward_expression M T (expression t0 terms) = decoder M d \<and>
           dec_source d = source t0 \<and> dec_transform d = annotation t0 \<and>
           map_of (dec_attrs d) key = None"
      using run by (intro exI [of _ ?d]) simp
  }
  {
    assume b: "map_of b0 k = None \<and> reduce_encodings T (b0 # bs) = Inr r"
    then have "fst ` set r = set (keys b0)"
      using fold_res_update_keys [of "reduce_key T (b0 # bs)" "keys b0" "[]" r]
      by (simp add: reduce_encodings_def)
    moreover have "k \<notin> set (keys b0)"
      using b by (simp add: keys_def map_of_eq_None_iff)
    ultimately show "map_of r k = None"
      by (simp add: map_of_eq_None_iff)
  }
  {
    assume c: "k \<in> set (keys b0) \<and> (map_of b1 k = None \<or> map_of b2 k = None)"
    then have "isl (reduce_key T (b0 # b1 # b2 # bs) k)"
      by (intro isl_reduce_key) simp
    then have "isl (fold_res (\<lambda>key results.
                 bind (reduce_key T (b0 # b1 # b2 # bs) key)
                   (\<lambda>v. Inr (AList.update key v results))) (keys b0) [])"
      using c by (intro fold_res_update_fails [of k]) simp_all
    then show "isl (reduce_encodings T (b0 # b1 # b2 # bs))"
      by (simp add: reduce_encodings_def)
  }
  {
    assume d: "(\<forall>t \<in> set (t0 # map snd terms).
        encoder M (take (length (source t) - 1) (source t)) = Inr (enc t)) \<and>
      (\<exists>t \<in> set (t0 # map snd terms). map_of (enc t) ''enc_outputs'' = None)"
    have "map_res (encode_item M (\<lambda>src. take (length src - 1) src)) (expression t0 terms) =
            Inr (interleave (enc t0) ?rest)"
      using d by (intro map_res_encode_expression) simp
    moreover have "enc_outputs (reduce_representations T (interleave (enc t0) ?rest)) = PNone"
      using absent [of "''enc_outputs''"] d by simp
    ultimately have "isl (eos_composition M T (expression t0 terms))"
      by (simp add: eos_composition_def Let_def bind_def split: sum.splits)
    then show "isl (forward_expression_eos M T (expression t0 terms))"
      by (simp add: forward_expression_eos_def eos_decoder_inputs_def isl_bind_left)
  }
qed

theorem absent_field_is_omitted_witness:
  "(\<exists>d. forward_expression terse_model ftorch
          (expression \<lparr>source = [[1], [3], [2]], annotation = [[7]]\<rparr>
             [(''+'', \<lparr>source = [[4]], annotation = [[7]]\<rparr>)]) = Inr d \<and>
        dec_source d = [[1], [3], [2]] \<and> dec_transform d = [[7]] \<and>
        map_of (dec_attrs d) ''enc_outputs'' = None) \<and>
   map_of [(''enc_hidden'', PTensor (([1, 1, 1], [7]) :: ftensor))] ''enc_outputs'' = None \<and>
   isl (reduce_encodings ftorch
     [[(''enc_hidden'', PTensor ([1, 1, 1], [6])), (''enc_outputs'', PTensor ([3, 1, 1], [1, 3, 2]))],
      [(''enc_hidden'', PTensor ([1, 1, 1], [1]))],
      [(''enc_hidden'', PTensor ([1, 1, 1], [8])), (''enc_outputs'', PTensor ([3, 1, 1], [1, 5, 2]))]]) \<and>
   isl (forward_expression_eos terse_model ftorch
          (expression \<lparr>source = [[1], [3], [2]], annotation = [[7]]\<rparr>
             [(''+'', \<lparr>source = [[4], [2]], annotation = [[7]]\<rparr>)]))"
proof -
  let ?tA = "\<lparr>source = [[1], [3], [2]], annotation = [[7]]\<rparr>"
  let ?tB = "\<lparr>source = [[4]], annotation = [[7]]\<rparr>"
  let ?tC = "\<lparr>source = [[4], [2]], annotation = [[7]]\<rparr>"
  let ?enc = "\<lambda>t. projr (encoder terse_model (source t))"
  let ?enc' = "\<lambda>t. projr (encoder terse_model (take (length (source t) - 1) (source t)))"
  let ?h = "[(''enc_hidden'', PTensor ([1, 1, 1], [7]))] :: ftensor modelio"
  let ?b0 = "[(''enc_hidden'', PTensor ([1, 1, 1], [6])), (''enc_outputs'', PTensor ([3, 1, 1], [1, 3, 2]))] :: ftensor modelio"
  let ?b1 = "[(''enc_hidden'', PTensor ([1, 1, 1], [1]))] :: ftensor modelio"
  let ?b2 = "[(''enc_hidden'', PTensor ([1, 1, 1], [8])), (''enc_outputs'', PTensor ([3, 1, 1], [1, 5, 2]))] :: ftensor modelio"
  have pre1: "(''enc_outputs'' = ''enc_hidden'' \<or> ''enc_outputs'' = ''enc_outputs'') \<and>
    (\<forall>t \<in> set (?tA # map snd [(''+'', ?tB)]). encoder terse_model (source t) = Inr (?enc t)) \<and>
    (\<exists>t \<in> set (?tA # map snd [(''+'', ?tB)]). map_of (?enc t) ''enc_outputs'' = None)"
    by (simp add: terse_model_def toy_encoder_def)
  obtain d where d: "forward_expression terse_model ftorch (expression ?tA [(''+'', ?tB)]) =
      decoder terse_model d" "dec_source d = source ?tA" "dec_transform d = annotation ?tA"
      "map_of (dec_attrs d) ''enc_outputs'' = None"
    using absent_field_is_omitted
      [of "''enc_outputs''" "?tA" "[(''+'', ?tB)]" terse_model "?enc" ftorch,
        THEN conjunct1, THEN mp, OF pre1] by blast
  have c1: "\<exists>d. forward_expression terse_model ftorch (expression ?tA [(''+'', ?tB)]) = Inr d \<and>
        dec_source d = [[1], [3], [2]] \<and> dec_transform d = [[7]] \<and>
        map_of (dec_attrs d) ''enc_outputs'' = None"
    using d by (intro exI [of _ d]) (simp add: terse_model_def)
  have red: "reduce_encodings ftorch [?h, ?h, ?h] = Inr ?h"
    by code_simp
  have pre2: "map_of ?h ''enc_outputs'' = None \<and> reduce_encodings ftorch (?h # [?h, ?h]) = Inr ?h"
    using red by simp
  have c2: "map_of ?h ''enc_outputs'' = None"
    using absent_field_is_omitted
      [of _ _ _ _ _ ftorch "?h" "''enc_outputs''" "[?h, ?h]" "?h",
        THEN conjunct2, THEN conjunct1, THEN mp, OF pre2] .
  have pre3: "''enc_outputs'' \<in> set (keys ?b0) \<and>
      (map_of ?b1 ''enc_outputs'' = None \<or> map_of ?b2 ''enc_outputs'' = None)"
    by (simp add: keys_def)
  have c3: "isl (reduce_encodings ftorch [?b0, ?b1, ?b2])"
    using absent_field_is_omitted
      [of _ _ _ _ _ ftorch "?b0" "''enc_outputs''" "[]" _ "?b1" "?b2",
        THEN conjunct2, THEN conjunct2, THEN conjunct1, THEN mp, OF pre3] .
  have pre4: "(\<forall>t \<in> set (?tA # map snd [(''+'', ?tC)]).
        encoder terse_model (take (length (source t) - 1) (source t)) = Inr (?enc' t)) \<and>
    (\<exists>t \<in> set (?tA # map snd [(''+'', ?tC)]). map_of (?enc' t) ''enc_outputs'' = None)"
    by (simp add: terse_model_def toy_encoder_def)
  have c4: "isl (forward_expression_eos terse_model ftorch (expression ?tA [(''+'', ?tC)]))"
    using absent_field_is_omitted
      [of _ "?tA" "[(''+'', ?tC)]" terse_model "?enc'" ftorch,
        THEN conjunct2, THEN conjunct2, THEN conjunct2, THEN mp, OF pre4] .
  show ?thesis using c1 c2 c3 c4 by blast
qed

text \<open>
  Claim C8 as it is worded fails in the reduction of \<^verbatim>\<open>forward_batch_expr\<close>: when the
  second term's encoding has no per-step outputs, the reduction raises AttributeError.
\<close>

theorem absent_field_batch_counterexample:
  "reduce_encodings ftorch
     [[(''enc_hidden'', PTensor ([1, 1, 1], [6])), (''enc_outputs'', PTensor ([3, 1, 1], [1, 3, 2]))],
      [(''enc_hidden'', PTensor ([1, 1, 1], [1]))],
      [(''enc_hidden'', PTensor ([1, 1, 1], [8])), (''enc_outputs'', PTensor ([3, 1, 1], [1, 5, 2]))]] =
     Inl AttributeError"
  by code_simp

subsection \<open>The policies of \<^verbatim>\<open>forward_batch_expr\<close>\<close>

text \<open>
  Claim C9, as amended. The reduction of \<^verbatim>\<open>forward_batch_expr\<close> does not look at the
  number of sub-expressions. Where the encoder accepts every term of an expression, an
  expression of three or more terms reduces to what its first three terms reduce to,
  so every term after the third is encoded and then ignored; an expression of one or
  two terms whose first encoding has a field makes the reduction fail.
\<close>

theorem operator_count_is_not_checked:
  "((\<forall>t \<in> set exp. encoder M t = Inr (enc t)) \<and> 3 \<le> length exp \<longrightarrow>
      encode_reduce_expression M T exp = encode_reduce_expression M T (take 3 exp)) \<and>
   ((\<forall>t \<in> set exp. encoder M t = Inr (enc t)) \<and> exp \<noteq> [] \<and> length exp < 3 \<and>
    keys (enc (hd exp)) \<noteq> [] \<longrightarrow>
      isl (encode_reduce_expression M T exp))"
proof (intro conjI impI)
  assume a: "(\<forall>t \<in> set exp. encoder M t = Inr (enc t)) \<and> 3 \<le> length exp"
  then obtain t0 t1 t2 ts where exp: "exp = t0 # t1 # t2 # ts"
    by (cases exp; cases "tl exp"; cases "tl (tl exp)") auto
  have all: "map_res (encoder M) exp = Inr (map enc exp)"
    using a by (intro map_res_total) simp
  have "\<forall>t \<in> set (take 3 exp). encoder M t = Inr (enc t)"
    using a by (auto dest: in_set_takeD)
  then have three: "map_res (encoder M) (take 3 exp) = Inr (map enc (take 3 exp))"
    by (rule map_res_total)
  show "encode_reduce_expression M T exp = encode_reduce_expression M T (take 3 exp)"
    unfolding encode_reduce_expression_def all three
    by (simp add: exp numeral_3_eq_3) (rule reduce_encodings_first_three)
next
  assume b: "(\<forall>t \<in> set exp. encoder M t = Inr (enc t)) \<and> exp \<noteq> [] \<and> length exp < 3 \<and>
    keys (enc (hd exp)) \<noteq> []"
  have all: "map_res (encoder M) exp = Inr (map enc exp)"
    using b by (intro map_res_total) simp
  from b consider t0 where "exp = [t0]" | t0 t1 where "exp = [t0, t1]"
    by (cases exp; cases "tl exp"; cases "tl (tl exp)") auto
  then have "isl (reduce_encodings T (map enc exp))"
  proof cases
    case 1
    then show ?thesis using b by (simp add: reduce_encodings_single)
  next
    case 2
    then show ?thesis using b by (simp add: reduce_encodings_two)
  qed
  then show "isl (encode_reduce_expression M T exp)"
    by (simp add: encode_reduce_expression_def all)
qed

theorem operator_count_is_not_checked_witness:
  "encode_reduce_expression toy_model ftorch
     [[[1], [3], [2]], [[1], [4], [2]], [[1], [5], [2]], [[1], [6], [2]]] =
     Inr [(''enc_hidden'', PTensor ([1, 1, 1], [7])), (''enc_outputs'', PTensor ([3, 1, 1], [1, 4, 2]))] \<and>
   isl (encode_reduce_expression toy_model ftorch [[[1], [3], [2]], [[1], [4], [2]]])"
proof -
  let ?enc = "\<lambda>t. projr (toy_encoder t)"
  have pre: "\<And>t. encoder toy_model t = Inr (?enc t)"
    by (simp add: toy_model_def toy_encoder_def)
  have three: "encode_reduce_expression toy_model ftorch
     (take 3 [[[1], [3], [2]], [[1], [4], [2]], [[1], [5], [2]], [[1], [6], [2]]]) =
     Inr [(''enc_hidden'', PTensor ([1, 1, 1], [7])), (''enc_outputs'', PTensor ([3, 1, 1], [1, 4, 2]))]"
    by code_simp
  let ?four = "[[[1], [3], [2]], [[1], [4], [2]], [[1], [5], [2]], [[1], [6], [2]]] :: tensor2 list"
  let ?two = "[[[1], [3], [2]], [[1], [4], [2]]] :: tensor2 list"
  have pre1: "(\<forall>t \<in> set ?four. encoder toy_model t = Inr (?enc t)) \<and> 3 \<le> length ?four"
    using pre by simp
  have "encode_reduce_expression toy_model ftorch ?four =
        encode_reduce_expression toy_model ftorch (take 3 ?four)"
    using operator_count_is_not_checked [of "?four" toy_model "?enc" ftorch,
        THEN conjunct1, THEN mp, OF pre1] .
  then have c1: "encode_reduce_expression toy_model ftorch ?four =
     Inr [(''enc_hidden'', PTensor ([1, 1, 1], [7])), (''enc_outputs'', PTensor ([3, 1, 1], [1, 4, 2]))]"
    using three by simp
  have pre2: "(\<forall>t \<in> set ?two. encoder toy_model t = Inr (?enc t)) \<and> ?two \<noteq> [] \<and>
      length ?two < 3 \<and> keys (?enc (hd ?two)) \<noteq> []"
    using pre by (simp add: toy_encoder_def keys_def)
  have c2: "isl (encode_reduce_expression toy_model ftorch ?two)"
    using operator_count_is_not_checked [of "?two" toy_model "?enc" ftorch,
        THEN conjunct2, THEN mp, OF pre2] .
  show ?thesis using c1 c2 by simp
qed

text \<open>
  Claim C9 as it is worded fails: a column with three operator markers (four
  sub-expressions) is processed like one with two, and a batch whose columns hold two
  and three operator markers is processed without any failure.
\<close>

theorem operator_count_counterexample:
  "forward_batch_expr toy_model ftorch
     \<lparr>source = [[1], [3], [0], [4], [0], [5], [0], [6], [2]], annotation = [[7]]\<rparr> 0 =
     Inr \<lparr>dec_source = [[1], [3], [2]], dec_transform = [[7]],
          dec_attrs = [(''enc_hidden'', PTensor ([1, 1, 1], [7])),
                       (''enc_outputs'', PTensor ([3, 1, 1], [1, 4, 2]))]\<rparr> \<and>
   forward_batch_expr toy_model ftorch
     \<lparr>source = [[1, 1], [3, 3], [0, 0], [4, 4], [0, 0], [5, 5], [2, 0]],
      annotation = [[7, 7]]\<rparr> 0 =
     Inr \<lparr>dec_source = [[1, 1], [3, 3], [2, 0]], dec_transform = [[7, 7]],
          dec_attrs = [(''enc_hidden'', PTensor ([1, 2, 1], [7, 5])),
                       (''enc_outputs'', PTensor ([3, 2, 1], [1, 1, 4, 4, 2, 0]))]\<rparr>"
proof
  show "forward_batch_expr toy_model ftorch
     \<lparr>source = [[1], [3], [0], [4], [0], [5], [0], [6], [2]], annotation = [[7]]\<rparr> 0 =
     Inr \<lparr>dec_source = [[1], [3], [2]], dec_transform = [[7]],
          dec_attrs = [(''enc_hidden'', PTensor ([1, 1, 1], [7])),
                       (''enc_outputs'', PTensor ([3, 1, 1], [1, 4, 2]))]\<rparr>"
    by code_simp
  show "forward_batch_expr toy_model ftorch
     \<lparr>source = [[1, 1], [3, 3], [0, 0], [4, 4], [0, 0], [5, 5], [2, 0]],
      annotation = [[7, 7]]\<rparr> 0 =
     Inr \<lparr>dec_source = [[1, 1], [3, 3], [2, 0]], dec_transform = [[7, 7]],
          dec_attrs = [(''enc_hidden'', PTensor ([1, 2, 1], [7, 5])),
                       (''enc_outputs'', PTensor ([3, 2, 1], [1, 1, 4, 4, 2, 0]))]\<rparr>"
    by code_simp
qed

text \<open>
  Claim C4, as amended. With a positive offset \<^verbatim>\<open>forward_batch_expr\<close> never returns a
  result. It raises NotImplementedError once the split, the stacking of the first
  sub-expressions and the reduction have gone through, which is the case on every
  batch that the default policy (offset 0) processes; a failure of one of these steps
  is raised instead.
\<close>

theorem positive_offset_never_returns:
  "(0 < offset \<longrightarrow> isl (forward_batch_expr M T b offset)) \<and>
   (0 < offset \<and> split_and_pad_expressions (source b) = Inr (exprs, src') \<and>
    map_res (\<lambda>e. nth_res e 0) exprs = Inr firsts \<and> stack firsts = Inr stacked \<and>
    encode_reduce_expressions M T (map (map unsqueeze1) exprs) = Inr reduced \<longrightarrow>
      forward_batch_expr M T b offset = Inl NotImplementedError) \<and>
   (0 < offset \<and> forward_batch_expr M T b 0 = Inr out \<longrightarrow>
      forward_batch_expr M T b offset = Inl NotImplementedError)"
proof (intro conjI impI)
  assume "0 < offset"
  then show "isl (forward_batch_expr M T b offset)"
    by (auto simp: forward_batch_expr_def Let_def bind_def split: sum.splits prod.splits)
next
  assume "0 < offset \<and> split_and_pad_expressions (source b) = Inr (exprs, src') \<and>
    map_res (\<lambda>e. nth_res e 0) exprs = Inr firsts \<and> stack firsts = Inr stacked \<and>
    encode_reduce_expressions M T (map (map unsqueeze1) exprs) = Inr reduced"
  then show "forward_batch_expr M T b offset = Inl NotImplementedError"
    by (simp add: forward_batch_expr_def Let_def)
next
  assume a: "0 < offset \<and> forward_batch_expr M T b 0 = Inr out"
  then show "forward_batch_expr M T b offset = Inl NotImplementedError"
    by (auto simp: forward_batch_expr_def Let_def bind_def split: sum.splits prod.splits)
qed

theorem positive_offset_never_returns_witness:
  "isl (forward_batch_expr toy_model ftorch
          \<lparr>source = [[1], [3], [0], [4], [0], [5], [2]], annotation = [[7]]\<rparr> 1) \<and>
   forward_batch_expr toy_model ftorch
     \<lparr>source = [[1], [3], [0], [4], [0], [5], [2]], annotation = [[7]]\<rparr> 1 =
     Inl NotImplementedError"
proof -
  let ?b = "\<lparr>source = [[1], [3], [0], [4], [0], [5], [2]], annotation = [[7]]\<rparr>"
  let ?out = "\<lparr>dec_source = [[1], [3], [2]], dec_transform = [[7]],
        dec_attrs = [(''enc_hidden'', PTensor (([1, 1, 1], [7]) :: ftensor)),
                     (''enc_outputs'', PTensor ([3, 1, 1], [1, 4, 2]))]\<rparr>"
  note inst = positive_offset_never_returns [of 1 toy_model ftorch "?b" _ _ _ _ _ "?out"]
  have zero: "forward_batch_expr toy_model ftorch ?b 0 = Inr ?out"
    by code_simp
  have c1: "isl (forward_batch_expr toy_model ftorch ?b 1)"
    using inst [THEN conjunct1] by simp
  have c2: "forward_batch_expr toy_model ftorch ?b 1 = Inl NotImplementedError"
    using inst [THEN conjunct2, THEN conjunct2] zero by simp
  have pre: "0 < (1 :: int) \<and>
      split_and_pad_expressions (source ?b) =
        Inr ([[[1, 3, 2], [1, 4, 2], [1, 5, 2]]], [[1], [3], [0], [4], [1], [5], [2]]) \<and>
      map_res (\<lambda>e. nth_res e 0) [[[1, 3, 2], [1, 4, 2], [1, 5, 2]]] = Inr [[1, 3, 2]] \<and>
      stack [[1, 3, 2]] = Inr [[1, 3, 2]] \<and>
      encode_reduce_expressions toy_model ftorch
        (map (map unsqueeze1) [[[1, 3, 2], [1, 4, 2], [1, 5, 2]]]) =
        Inr [[(''enc_hidden'', PTensor ([1, 1, 1], [7])),
              (''enc_outputs'', PTensor ([3, 1, 1], [1, 4, 2]))]]"
  proof (intro conjI)
    show "split_and_pad_expressions (source ?b) =
        Inr ([[[1, 3, 2], [1, 4, 2], [1, 5, 2]]], [[1], [3], [0], [4], [1], [5], [2]])"
      by code_simp
    show "encode_reduce_expressions toy_model ftorch
        (map (map unsqueeze1) [[[1, 3, 2], [1, 4, 2], [1, 5, 2]]]) =
        Inr [[(''enc_hidden'', PTensor ([1, 1, 1], [7])),
              (''enc_outputs'', PTensor ([3, 1, 1], [1, 4, 2]))]]"
      by code_simp
  qed (simp_all add: stack_def)
  have c3: "forward_batch_expr toy_model ftorch ?b 1 = Inl NotImplementedError"
    using positive_offset_never_returns [of 1 toy_model ftorch "?b", THEN conjunct2,
        THEN conjunct1, THEN mp, OF pre] .
  show ?thesis using c1 c2 c3 by simp
qed

text \<open>
  Claim C4 as it is worded fails on a batch of one column without operator marker: the
  reduction, which runs before the policy is looked at, raises IndexError.
\<close>

theorem positive_offset_counterexample:
  "forward_batch_expr toy_model ftorch
     \<lparr>source = [[1], [3], [4], [5], [2]], annotation = [[7]]\<rparr> 1 = Inl IndexError"
  by code_simp

subsection \<open>Composition before the end marker\<close>




subsection \<open>Reduction during encoding\<close>



end
